theory Spec2Isabelle
  imports Complex_Main "HOL-Library.Multiset" "HOL-Library.Log_Nat"
begin

section \<open>Data model of the dashboard page\<close>

text \<open>
  The page \<^verbatim>\<open>src/app/page.tsx\<close> exists in two versions in the source: a first one
  without realtime feed (its functions carry the suffix \<open>_v1\<close> here) and a second one with
  the \<^verbatim>\<open>DEMO_MODE\<close> switch, the realtime subscription and the demo generator.

  A JavaScript number is modelled by the real number it denotes: measurements, targets,
  random draws and row identifiers are of type \<^typ>\<open>real\<close>, and every arithmetic
  operation of the source rounds its exact result to binary64 (section on numbers below).
  NaN and the infinities are not represented: the page receives numbers or null from the
  store, and no operation of the page overflows on finite arguments. \<^verbatim>\<open>number | null\<close>
  is \<^typ>\<open>real option\<close>, the optional field \<^verbatim>\<open>timestamp_wib?\<close> is
  \<^typ>\<open>string option\<close>.
\<close>

record SensorRow =
  id_row :: real
  timestamp :: string
  suhu :: "real option"
  kelembapan :: "real option"
  cahaya :: "real option"
  suara :: "real option"
  timestamp_wib :: "string option"

record SetpointRow =
  id_sp :: int
  suhu_target :: "real option"
  kelembapan_target :: "real option"
  cahaya_target :: "real option"
  suara_target :: "real option"

datatype MetricKey = Suhu | Kelembapan | Cahaya | Suara

text \<open>
  The object \<^verbatim>\<open>{ suhu, kelembapan, cahaya, suara }\<close> held by the \<^verbatim>\<open>setpoint\<close> and
  \<^verbatim>\<open>demoBase\<close> states; the fields carry a suffix to keep them apart from the fields of
  \<^typ>\<open>SensorRow\<close>.
\<close>

record Setpoint =
  suhu_sp :: real
  kelembapan_sp :: real
  cahaya_sp :: real
  suara_sp :: real

text \<open>
  What the page takes from its host and does not define: the rendering of an instant by
  \<^verbatim>\<open>toLocaleTimeString\<close> (the whole body of \<^verbatim>\<open>toWIB\<close>), the reading of an ISO
  string as epoch milliseconds (\<^verbatim>\<open>new Date(s).getTime()\<close>; timestamps are taken to be
  valid, so the result is a number), and \<^verbatim>\<open>Number.prototype.toFixed(1)\<close>.
\<close>

record host =
  toWIB :: "string \<Rightarrow> string"
  getTime :: "string \<Rightarrow> int"
  toFixed1 :: "real \<Rightarrow> string"

text \<open>
  What one call of \<^verbatim>\<open>generateDemoData\<close> reads from its environment, in evaluation
  order: two readings of the clock (\<^verbatim>\<open>new Date().toISOString()\<close>, once for
  \<^verbatim>\<open>timestamp\<close> and once more for \<^verbatim>\<open>timestamp_wib\<close>) and four results of
  \<^verbatim>\<open>Math.random()\<close>.
\<close>

record draws =
  now_iso :: string
  now_wib :: string
  rnd_suhu :: real
  rnd_kelembapan :: real
  rnd_cahaya :: real
  rnd_suara :: real

text \<open>
  The state of the component: the \<^verbatim>\<open>useState\<close> cells, and the log of the calls of
  \<^verbatim>\<open>alert\<close> (the only effect the user sees besides the rendering).
\<close>

record page_state =
  data :: "SensorRow list"
  loadingData :: bool
  setpoint :: Setpoint
  savingSetpoint :: bool
  demoBase :: Setpoint
  activeMetric :: MetricKey
  alerts :: "string list"

definition default_setpoint :: Setpoint where
  "default_setpoint =
     \<lparr>suhu_sp = 25, kelembapan_sp = 60, cahaya_sp = 300, suara_sp = 50\<rparr>"

definition init_state :: page_state where
  "init_state =
     \<lparr>data = [], loadingData = True, setpoint = default_setpoint,
      savingSetpoint = False, demoBase = default_setpoint,
      activeMetric = Suhu, alerts = []\<rparr>"

text \<open>\<^verbatim>\<open>const DEMO_MODE = false\<close>: the feed mode of the second version, fixed when the
  page is built. The functions that read it take it as the argument \<open>demo\<close>.\<close>

definition DEMO_MODE :: bool where
  "DEMO_MODE = False"

section \<open>JavaScript numbers\<close>

text \<open>
  Arithmetic on numbers is IEEE-754 binary64 with rounding to nearest, ties to even.
  \<open>rhe\<close> rounds a real to the nearest integer, ties to the even one; \<open>expo x\<close> is the
  exponent \<open>E\<close> with \<open>2\<^sup>E \<le> \<bar>x\<bar> < 2\<^sup>E\<^sup>+\<^sup>1\<close>; \<open>grid e\<close> rounds to the nearest multiple of
  \<open>2\<^sup>e\<close>; \<open>binary64\<close> rounds to the nearest number with 53 significant bits, the
  spacing never below \<open>2\<^sup>-\<^sup>1\<^sup>0\<^sup>7\<^sup>4\<close> (subnormal numbers). \<open>add64\<close>, \<open>sub64\<close> and
  \<open>mul64\<close> are the operators \<^verbatim>\<open>+\<close>, \<^verbatim>\<open>-\<close> and \<^verbatim>\<open>*\<close>.
\<close>

definition rhe :: "real \<Rightarrow> int" where
  "rhe x =
     (let n = \<lfloor>x\<rfloor>; f = x - of_int n
      in if f < 1 / 2 then n else if 1 / 2 < f then n + 1 else if even n then n else n + 1)"

definition expo :: "real \<Rightarrow> int" where
  "expo x = (if 1 \<le> \<bar>x\<bar> then bitlen \<lfloor>\<bar>x\<bar>\<rfloor> - 1 else - bitlen (\<lceil>1 / \<bar>x\<bar>\<rceil> - 1))"

definition grid :: "int \<Rightarrow> real \<Rightarrow> real" where
  "grid e x = of_int (rhe (x / 2 powi e)) * 2 powi e"

definition binary64 :: "real \<Rightarrow> real" where
  "binary64 x = grid (max (expo x) (- 1022) - 52) x"

definition add64 :: "real \<Rightarrow> real \<Rightarrow> real" where
  "add64 x y = binary64 (x + y)"

definition sub64 :: "real \<Rightarrow> real \<Rightarrow> real" where
  "sub64 x y = binary64 (x - y)"

definition mul64 :: "real \<Rightarrow> real \<Rightarrow> real" where
  "mul64 x y = binary64 (x * y)"

section \<open>Demo feed generator\<close>

text \<open>\<^verbatim>\<open>const noise = (range) => Math.random() * range * 2 - range\<close>, with the result
  \<open>u\<close> of \<^verbatim>\<open>Math.random()\<close> as an argument; the product is taken from the left.\<close>

definition noise :: "real \<Rightarrow> real \<Rightarrow> real" where
  "noise u rng = sub64 (mul64 (mul64 u rng) 2) rng"

text \<open>\<^verbatim>\<open>last?.id || 0\<close>: an absent row and the falsy identifier \<open>0\<close> both give \<open>0\<close>.\<close>

definition last_id_or_0 :: "SensorRow option \<Rightarrow> real" where
  "last_id_or_0 lst =
     (case lst of None \<Rightarrow> 0 | Some r \<Rightarrow> (if id_row r = 0 then 0 else id_row r))"

text \<open>The literal \<^verbatim>\<open>0.3\<close> is the binary64 number nearest to 3/10; the literals 1, 5 and 2
  are exact.\<close>

definition generateDemoData :: "host \<Rightarrow> Setpoint \<Rightarrow> SensorRow option \<Rightarrow> draws \<Rightarrow> SensorRow" where
  "generateDemoData h base lst d =
     \<lparr>id_row = add64 (last_id_or_0 lst) 1,
      timestamp = now_iso d,
      suhu = Some (add64 (suhu_sp base) (noise (rnd_suhu d) (binary64 (3 / 10)))),
      kelembapan = Some (add64 (kelembapan_sp base) (noise (rnd_kelembapan d) 1)),
      cahaya = Some (add64 (cahaya_sp base) (noise (rnd_cahaya d) 5)),
      suara = Some (add64 (suara_sp base) (noise (rnd_suara d) 2)),
      timestamp_wib = Some (toWIB h (now_wib d))\<rparr>"

section \<open>Live readings feed, demo mode\<close>

text \<open>
  The updater passed to \<^verbatim>\<open>setData\<close> by the interval callback, on the buffer:
  \<^verbatim>\<open>last\<close> is the final entry when there is one, \<^verbatim>\<open>next\<close> is generated from it, and
  \<^verbatim>\<open>prev.slice(prev.length - 499)\<close> keeps the final 499 entries.
\<close>

definition last_row :: "SensorRow list \<Rightarrow> SensorRow option" where
  "last_row prev = (if length prev > 0 then Some (prev ! (length prev - 1)) else None)"

definition demo_tick :: "host \<Rightarrow> Setpoint \<Rightarrow> draws \<Rightarrow> SensorRow list \<Rightarrow> SensorRow list" where
  "demo_tick h base d prev =
     (let lst = last_row prev;
          next = generateDemoData h base lst d;
          trimmed = (if length prev \<ge> 500 then drop (length prev - 499) prev else prev)
      in trimmed @ [next])"

text \<open>The interval callback on the state; \<open>base\<close> is the \<^verbatim>\<open>demoBase\<close> the effect closed over.\<close>

definition interval_callback :: "host \<Rightarrow> Setpoint \<Rightarrow> draws \<Rightarrow> page_state \<Rightarrow> page_state" where
  "interval_callback h base d st = st\<lparr>data := demo_tick h base d (data st)\<rparr>"

text \<open>A run of the timer: one call of the callback per element of the list of draws.\<close>

fun interval_run :: "host \<Rightarrow> Setpoint \<Rightarrow> draws list \<Rightarrow> page_state \<Rightarrow> page_state" where
  "interval_run h base [] st = st"
| "interval_run h base (d # ds) st = interval_run h base ds (interval_callback h base d st)"

text \<open>The readings the generator produces in a row, each from the one before it, starting
  after the optional reading \<open>lst\<close>.\<close>

fun generated_readings :: "host \<Rightarrow> Setpoint \<Rightarrow> SensorRow option \<Rightarrow> draws list \<Rightarrow> SensorRow list" where
  "generated_readings h base lst [] = []"
| "generated_readings h base lst (d # ds) =
     generateDemoData h base lst d #
     generated_readings h base (Some (generateDemoData h base lst d)) ds"

section \<open>Remote store: requests and responses\<close>

text \<open>
  The chain \<^verbatim>\<open>supabase.from(t).select(c).order(o, { ascending }).limit(n)\<close> as a value,
  and the object \<^verbatim>\<open>{ data, error }\<close> that awaiting a request yields (\<open>None\<close> is
  \<^verbatim>\<open>null\<close>). The client reports a failed request in \<^verbatim>\<open>error\<close>; it does not throw.
\<close>

record select_request =
  table :: string
  columns :: string
  order_by :: string
  ascending :: bool
  limit :: nat

record 'a response =
  data_r :: "'a option"
  error_r :: "string option"

text \<open>The object passed to \<^verbatim>\<open>upsert\<close> by \<^verbatim>\<open>handleSaveSetpoint\<close>.\<close>

record upsert_payload =
  id_up :: int
  suhu_target_up :: real
  kelembapan_target_up :: real
  cahaya_target_up :: real
  suara_target_up :: real
  updated_at :: string

section \<open>Live readings feed, realtime mode\<close>

definition fetchInitial_request :: select_request where
  "fetchInitial_request =
     \<lparr>table = ''sensor_logs'', columns = ''*'', order_by = ''timestamp'',
      ascending = False, limit = 500\<rparr>"

text \<open>\<^verbatim>\<open>{ ...row, timestamp_wib: toWIB(row.timestamp) }\<close>, and also the assignment
  \<^verbatim>\<open>r.timestamp_wib = toWIB(r.timestamp)\<close> of the realtime handler.\<close>

definition with_wib :: "host \<Rightarrow> SensorRow \<Rightarrow> SensorRow" where
  "with_wib h row = row\<lparr>timestamp_wib := Some (toWIB h (timestamp row))\<rparr>"

text \<open>
  \<^verbatim>\<open>[...data].sort((a, b) => new Date(a.timestamp).getTime() - new Date(b.timestamp).getTime())\<close>:
  \<^verbatim>\<open>Array.prototype.sort\<close> is a stable sort, here by the key \<^verbatim>\<open>getTime\<close> of the
  timestamp, ascending.
\<close>

definition sort_by_timestamp :: "host \<Rightarrow> SensorRow list \<Rightarrow> SensorRow list" where
  "sort_by_timestamp h rows = sort_key (\<lambda>r. getTime h (timestamp r)) rows"

text \<open>
  \<^verbatim>\<open>fetchInitial\<close> in its two halves: what runs before the \<^verbatim>\<open>await\<close>, and the
  continuation that runs when the request has resolved with \<open>resp\<close>. \<^verbatim>\<open>!error && data\<close>
  holds when \<^verbatim>\<open>error\<close> is null and \<^verbatim>\<open>data\<close> is an array (also an empty one).
\<close>

definition fetchInitial_start :: "page_state \<Rightarrow> page_state" where
  "fetchInitial_start st = st\<lparr>loadingData := True\<rparr>"

definition fetchInitial_resolve ::
  "host \<Rightarrow> SensorRow list response \<Rightarrow> page_state \<Rightarrow> page_state" where
  "fetchInitial_resolve h resp st =
     (let st1 = (case (error_r resp, data_r resp) of
                   (None, Some rows) \<Rightarrow>
                     (let sorted_rows = sort_by_timestamp h rows;
                          withWIB = map (with_wib h) sorted_rows
                      in st\<lparr>data := withWIB\<rparr>)
                 | _ \<Rightarrow> st)
      in st1\<lparr>loadingData := False\<rparr>)"

text \<open>The whole of \<^verbatim>\<open>fetchInitial\<close> when nothing else runs in between; \<open>store\<close> answers
  the request.\<close>

definition fetchInitial ::
  "host \<Rightarrow> (select_request \<Rightarrow> SensorRow list response) \<Rightarrow> page_state \<Rightarrow> page_state" where
  "fetchInitial h store st =
     fetchInitial_resolve h (store fetchInitial_request) (fetchInitial_start st)"

text \<open>The handler of the \<^verbatim>\<open>INSERT\<close> events of the channel; \<open>r\<close> is \<^verbatim>\<open>payload.new\<close>.
  \<^verbatim>\<open>shift()\<close> removes the first entry.\<close>

definition on_insert :: "host \<Rightarrow> SensorRow \<Rightarrow> page_state \<Rightarrow> page_state" where
  "on_insert h r st =
     (let r' = r\<lparr>timestamp_wib := Some (toWIB h (timestamp r))\<rparr>;
          updated = data st @ [r']
      in st\<lparr>data := (if length updated > 1000 then tl updated else updated)\<rparr>)"

text \<open>What reaches the buffer in realtime mode, in the order in which the single thread
  of the page handles it: a pushed insertion, or the resolution of the bulk load.\<close>

datatype feed_event = Pushed SensorRow | Loaded "SensorRow list response"

fun feed_step :: "host \<Rightarrow> page_state \<Rightarrow> feed_event \<Rightarrow> page_state" where
  "feed_step h st (Pushed r) = on_insert h r st"
| "feed_step h st (Loaded resp) = fetchInitial_resolve h resp st"

definition feed_run :: "host \<Rightarrow> feed_event list \<Rightarrow> page_state \<Rightarrow> page_state" where
  "feed_run h evs st = foldl (feed_step h) st evs"

text \<open>A response that respects the \<^verbatim>\<open>limit\<close> of the request it answers.\<close>

definition within_limit :: "nat \<Rightarrow> feed_event \<Rightarrow> bool" where
  "within_limit n ev =
     (case ev of
        Pushed r \<Rightarrow> True
      | Loaded resp \<Rightarrow> (case data_r resp of None \<Rightarrow> True | Some rows \<Rightarrow> length rows \<le> n))"

subsection \<open>First version: the load without realtime\<close>

definition load_request_v1 :: select_request where
  "load_request_v1 =
     \<lparr>table = ''sensor_logs'', columns = ''*'', order_by = ''timestamp'',
      ascending = False, limit = 300\<rparr>"

definition load_resolve_v1 ::
  "host \<Rightarrow> SensorRow list response \<Rightarrow> page_state \<Rightarrow> page_state" where
  "load_resolve_v1 h resp st =
     (let st1 = (case (error_r resp, data_r resp) of
                   (None, Some rows) \<Rightarrow>
                     (let sorted_rows = sort_by_timestamp h rows
                      in st\<lparr>data := map (with_wib h) sorted_rows\<rparr>)
                 | _ \<Rightarrow> st)
      in st1\<lparr>loadingData := False\<rparr>)"

definition load_v1 ::
  "host \<Rightarrow> (select_request \<Rightarrow> SensorRow list response) \<Rightarrow> page_state \<Rightarrow> page_state" where
  "load_v1 h store st =
     load_resolve_v1 h (store load_request_v1) (st\<lparr>loadingData := True\<rparr>)"

section \<open>Setpoint store\<close>

text \<open>\<^verbatim>\<open>data.suhu_target ?? 25\<close> and its three siblings.\<close>

definition setpoint_of_row :: "SetpointRow \<Rightarrow> Setpoint" where
  "setpoint_of_row dat =
     \<lparr>suhu_sp = (case suhu_target dat of None \<Rightarrow> 25 | Some v \<Rightarrow> v),
      kelembapan_sp = (case kelembapan_target dat of None \<Rightarrow> 60 | Some v \<Rightarrow> v),
      cahaya_sp = (case cahaya_target dat of None \<Rightarrow> 300 | Some v \<Rightarrow> v),
      suara_sp = (case suara_target dat of None \<Rightarrow> 50 | Some v \<Rightarrow> v)\<rparr>"

text \<open>
  The continuation of \<^verbatim>\<open>load\<close> (second version) after the request for the row with
  \<^verbatim>\<open>id = 1\<close> has resolved with \<open>resp\<close>; \<open>demo\<close> is the value of \<^verbatim>\<open>DEMO_MODE\<close>.
  \<^verbatim>\<open>if (error || !data) return\<close> comes first.
\<close>

definition load :: "bool \<Rightarrow> SetpointRow response \<Rightarrow> page_state \<Rightarrow> page_state" where
  "load demo resp st =
     (if error_r resp \<noteq> None \<or> data_r resp = None then st
      else (let s = setpoint_of_row (the (data_r resp));
                st1 = st\<lparr>setpoint := s\<rparr>
            in if demo then st1\<lparr>demoBase := s\<rparr> else st1))"

text \<open>\<^verbatim>\<open>loadSetpoint\<close> of the first version reads \<^verbatim>\<open>data\<close> only.\<close>

definition loadSetpoint_v1 :: "SetpointRow response \<Rightarrow> page_state \<Rightarrow> page_state" where
  "loadSetpoint_v1 resp st =
     (case data_r resp of
        Some dat \<Rightarrow> st\<lparr>setpoint := setpoint_of_row dat\<rparr>
      | None \<Rightarrow> st)"

definition save_payload :: "Setpoint \<Rightarrow> string \<Rightarrow> upsert_payload" where
  "save_payload sp now =
     \<lparr>id_up = 1, suhu_target_up = suhu_sp sp, kelembapan_target_up = kelembapan_sp sp,
      cahaya_target_up = cahaya_sp sp, suara_target_up = suara_sp sp, updated_at = now\<rparr>"

text \<open>
  \<^verbatim>\<open>handleSaveSetpoint\<close> (second version): \<open>upsert\<close> answers the request with the
  \<^verbatim>\<open>error\<close> of its result, \<open>now\<close> is \<^verbatim>\<open>new Date().toISOString()\<close>, and the
  \<^verbatim>\<open>setpoint\<close> the handler closes over is the one of the state it is called in.
\<close>

definition handleSaveSetpoint ::
  "bool \<Rightarrow> (upsert_payload \<Rightarrow> string option) \<Rightarrow> string \<Rightarrow> page_state \<Rightarrow> page_state" where
  "handleSaveSetpoint demo upsert now st =
     (let sp = setpoint st;
          st1 = st\<lparr>savingSetpoint := True\<rparr>;
          err = upsert (save_payload sp now);
          st2 = (if err \<noteq> None then st1\<lparr>alerts := alerts st1 @ [''Gagal menyimpan setpoint!'']\<rparr>
                 else if demo then st1\<lparr>demoBase := sp\<rparr>
                 else st1)
      in st2\<lparr>savingSetpoint := False\<rparr>)"

text \<open>\<^verbatim>\<open>handleSaveSetpoint\<close> of the first version awaits the same request and drops its
  result.\<close>

definition handleSaveSetpoint_v1 ::
  "(upsert_payload \<Rightarrow> string option) \<Rightarrow> string \<Rightarrow> page_state \<Rightarrow> page_state" where
  "handleSaveSetpoint_v1 upsert now st =
     (let sp = setpoint st;
          st1 = st\<lparr>savingSetpoint := True\<rparr>;
          dropped = upsert (save_payload sp now)
      in st1\<lparr>savingSetpoint := False\<rparr>)"

section \<open>View\<close>

text \<open>The text of the value of a \<^verbatim>\<open>MetricCard\<close>:
  \<^verbatim>\<open>value != null ? value.toFixed(1) : "--"\<close>.\<close>

definition MetricCard :: "host \<Rightarrow> real option \<Rightarrow> string" where
  "MetricCard h v = (case v of Some x \<Rightarrow> toFixed1 h x | None \<Rightarrow> ''--'')"

text \<open>\<^verbatim>\<open>latest[m.key]\<close>.\<close>

definition metric_value :: "MetricKey \<Rightarrow> SensorRow \<Rightarrow> real option" where
  "metric_value k row =
     (case k of Suhu \<Rightarrow> suhu row | Kelembapan \<Rightarrow> kelembapan row
              | Cahaya \<Rightarrow> cahaya row | Suara \<Rightarrow> suara row)"

text \<open>\<^verbatim>\<open>const latest = data.length > 0 ? data[data.length - 1] : null\<close>, and the card of
  the metric \<open>k\<close>: \<^verbatim>\<open>value={latest ? latest[m.key] : null}\<close>.\<close>

definition latest :: "page_state \<Rightarrow> SensorRow option" where
  "latest st = last_row (data st)"

definition card_text :: "host \<Rightarrow> MetricKey \<Rightarrow> page_state \<Rightarrow> string" where
  "card_text h k st =
     MetricCard h (case latest st of Some row \<Rightarrow> metric_value k row | None \<Rightarrow> None)"

section \<open>Concrete inputs\<close>

text \<open>A concrete host and concrete draws, for evaluating the definitions.\<close>

definition sample_host :: host where
  "sample_host =
     \<lparr>toWIB = (\<lambda>s. take 8 (drop 11 s)),
      getTime = (\<lambda>s. int (length s)),
      toFixed1 = (\<lambda>x. ''n.n'')\<rparr>"

definition sample_draws :: draws where
  "sample_draws =
     \<lparr>now_iso = ''2025-01-01T05:00:00.000Z'', now_wib = ''2025-01-01T05:00:00.001Z'',
      rnd_suhu = 0, rnd_kelembapan = 1 / 2, rnd_cahaya = 3 / 4, rnd_suara = 1 / 4\<rparr>"

text \<open>Rows with pairwise different timestamps (row \<open>i\<close> is the \<open>i\<close>-th oldest for
  \<open>sample_host\<close>), and a store that answers every request with as many rows as the request
  allows, newest first.\<close>

definition sample_row :: "nat \<Rightarrow> SensorRow" where
  "sample_row i =
     \<lparr>id_row = of_nat i, timestamp = replicate i CHR ''I'',
      suhu = Some 25, kelembapan = None, cahaya = Some 300, suara = Some 50,
      timestamp_wib = None\<rparr>"

text \<open>A reading whose identifier is \<open>2\<^sup>5\<^sup>3\<close>.\<close>

definition big_row :: SensorRow where
  "big_row = (sample_row 0)\<lparr>id_row := 2 ^ 53\<rparr>"

definition sample_store :: "select_request \<Rightarrow> SensorRow list response" where
  "sample_store q = \<lparr>data_r = Some (map sample_row (rev [0..<limit q])), error_r = None\<rparr>"



text \<open>A buffer at the cap of the realtime handler, a successful answer with two rows
  (newest first), a stored setpoint row with two targets missing, the two unsuccessful
  answers to the request for the setpoint row, and an upsert that fails.\<close>

definition sample_full :: page_state where
  "sample_full = init_state\<lparr>data := replicate 1000 (sample_row 0)\<rparr>"

definition sample_pair :: "SensorRow list response" where
  "sample_pair = \<lparr>data_r = Some [sample_row 1, sample_row 0], error_r = None\<rparr>"

definition sample_setpoint_row :: SetpointRow where
  "sample_setpoint_row =
     \<lparr>id_sp = 1, suhu_target = Some (55 / 2), kelembapan_target = None,
      cahaya_target = Some 450, suara_target = None\<rparr>"

definition absent_row :: "SetpointRow response" where
  "absent_row = \<lparr>data_r = None, error_r = None\<rparr>"

definition failed_request :: "SetpointRow response" where
  "failed_request = \<lparr>data_r = None, error_r = Some ''TypeError: Failed to fetch''\<rparr>"

definition failing_upsert :: "upsert_payload \<Rightarrow> string option" where
  "failing_upsert p = Some ''TypeError: Failed to fetch''"

section \<open>Properties of binary64 rounding\<close>

lemma rhe_cases:
  "rhe x = \<lfloor>x\<rfloor> \<or> rhe x = \<lfloor>x\<rfloor> + 1"
  by (simp add: rhe_def Let_def)

lemma rhe_mono: "x \<le> y \<Longrightarrow> rhe x \<le> rhe y"
proof -
  assume xy: "x \<le> y"
  then have fl: "\<lfloor>x\<rfloor> \<le> \<lfloor>y\<rfloor>" by (rule floor_mono)
  show ?thesis
  proof (cases "\<lfloor>x\<rfloor> = \<lfloor>y\<rfloor>")
    case True
    with xy have "x - of_int \<lfloor>x\<rfloor> \<le> y - of_int \<lfloor>y\<rfloor>" by simp
    with True show ?thesis by (auto simp: rhe_def Let_def)
  next
    case False
    with fl have "\<lfloor>x\<rfloor> + 1 \<le> \<lfloor>y\<rfloor>" by simp
    moreover have "rhe x \<le> \<lfloor>x\<rfloor> + 1" using rhe_cases [of x] by auto
    moreover have "\<lfloor>y\<rfloor> \<le> rhe y" using rhe_cases [of y] by auto
    ultimately show ?thesis by linarith
  qed
qed

lemma rhe_err: "\<bar>of_int (rhe x) - x\<bar> \<le> 1 / 2"
proof -
  have "of_int \<lfloor>x\<rfloor> \<le> x" "x < of_int \<lfloor>x\<rfloor> + 1" by linarith+
  then show ?thesis by (auto simp: rhe_def Let_def abs_le_iff)
qed

lemma rhe_of_int [simp]: "rhe (of_int n) = n"
  by (simp add: rhe_def)

lemma rhe_minus: "rhe (- x) = - rhe x"
proof (cases "x = of_int \<lfloor>x\<rfloor>")
  case True
  then obtain n where "x = of_int n" ..
  then have "- x = of_int (- n)" by simp
  then show ?thesis using \<open>x = of_int n\<close> by (metis rhe_of_int)
next
  case False
  then have lt: "of_int \<lfloor>x\<rfloor> < x" by linarith
  have up: "x < of_int \<lfloor>x\<rfloor> + 1" by linarith
  have fm: "\<lfloor>- x\<rfloor> = - \<lfloor>x\<rfloor> - 1"
  proof (rule floor_unique)
    show "of_int (- \<lfloor>x\<rfloor> - 1) \<le> - x"
      unfolding of_int_diff of_int_minus of_int_1 using up by linarith
    show "- x < of_int (- \<lfloor>x\<rfloor> - 1) + 1"
      unfolding of_int_diff of_int_minus of_int_1 using lt by linarith
  qed
  have f: "- x - of_int (- \<lfloor>x\<rfloor> - 1) = 1 - (x - of_int \<lfloor>x\<rfloor>)" by simp
  have g: "0 < x - of_int \<lfloor>x\<rfloor>" using lt by simp
  show ?thesis
    unfolding rhe_def Let_def fm f using g by auto
qed

lemma grid_mono: "x \<le> y \<Longrightarrow> grid e x \<le> grid e y"
proof -
  assume "x \<le> y"
  then have "x / 2 powi e \<le> y / 2 powi e" by (simp add: divide_right_mono)
  then have "rhe (x / 2 powi e) \<le> rhe (y / 2 powi e)" by (rule rhe_mono)
  then show ?thesis by (simp add: grid_def)
qed

lemma grid_minus: "grid e (- x) = - grid e x"
  by (simp add: grid_def rhe_minus)

lemma grid_fixed: "grid e (of_int k * 2 powi e) = of_int k * 2 powi e"
  by (simp add: grid_def)

lemma grid_err: "\<bar>grid e x - x\<bar> \<le> 2 powi e / 2"
proof -
  have p: "(0::real) < 2 powi e" by simp
  have "grid e x - x = (of_int (rhe (x / 2 powi e)) - x / 2 powi e) * 2 powi e"
    by (simp add: grid_def algebra_simps)
  then have "\<bar>grid e x - x\<bar> = \<bar>of_int (rhe (x / 2 powi e)) - x / 2 powi e\<bar> * 2 powi e"
    by (simp add: abs_mult)
  also have "\<dots> \<le> (1 / 2) * 2 powi e"
    using rhe_err [of "x / 2 powi e"] p by (intro mult_right_mono) auto
  finally show ?thesis by simp
qed

lemma expo_minus [simp]: "expo (- x) = expo x"
  by (simp add: expo_def)

lemma powi_less_exp: "(2::real) powi a \<le> v \<Longrightarrow> v < 2 powi b \<Longrightarrow> a < b"
proof (rule ccontr)
  assume 1: "(2::real) powi a \<le> v" and 2: "v < 2 powi b" and "\<not> a < b"
  then have "b \<le> a" by simp
  then have "(2::real) powi b \<le> 2 powi a" by (intro power_int_increasing) auto
  with 1 2 show False by linarith
qed

lemma expo_bounds:
  assumes "x \<noteq> 0"
  shows "2 powi expo x \<le> \<bar>x\<bar>" and "\<bar>x\<bar> < 2 powi (expo x + 1)"
proof -
  have "2 powi expo x \<le> \<bar>x\<bar> \<and> \<bar>x\<bar> < 2 powi (expo x + 1)"
  proof (cases "1 \<le> \<bar>x\<bar>")
    case True
    let ?n = "\<lfloor>\<bar>x\<bar>\<rfloor>"
    have n: "0 < ?n" using True by linarith
    have e: "expo x = bitlen ?n - 1" using True by (simp add: expo_def)
    have b1: "1 \<le> bitlen ?n" using n bitlen_eq_zero_iff [of ?n] bitlen_nonneg [of ?n] by linarith
    from bitlen_bounds [OF n]
    have lo: "2 ^ nat (bitlen ?n - 1) \<le> ?n" and hi: "?n < 2 ^ nat (bitlen ?n)" by auto
    have "(2::real) powi expo x = 2 ^ nat (bitlen ?n - 1)"
      using b1 by (simp add: e power_int_nonneg_exp)
    also have "\<dots> = of_int (2 ^ nat (bitlen ?n - 1))" by simp
    also have "\<dots> \<le> of_int ?n" using lo by (simp only: of_int_le_iff)
    also have "\<dots> \<le> \<bar>x\<bar>" by linarith
    finally have 1: "2 powi expo x \<le> \<bar>x\<bar>" .
    have "?n + 1 \<le> 2 ^ nat (bitlen ?n)" using hi by simp
    then have "(of_int (?n + 1) :: real) \<le> of_int (2 ^ nat (bitlen ?n))"
      by (simp only: of_int_le_iff)
    moreover have "\<bar>x\<bar> < of_int (?n + 1)" by linarith
    ultimately have "\<bar>x\<bar> < of_int (2 ^ nat (bitlen ?n))" by linarith
    also have "\<dots> = 2 powi (expo x + 1)"
      using b1 by (simp add: e power_int_nonneg_exp)
    finally have 2: "\<bar>x\<bar> < 2 powi (expo x + 1)" .
    from 1 2 show ?thesis ..
  next
    case False
    define y where "y = 1 / \<bar>x\<bar>"
    define m where "m = \<lceil>y\<rceil> - 1"
    define P :: real where "P = 2 ^ nat (bitlen m)"
    define Q :: real where "Q = 2 ^ nat (bitlen m - 1)"
    have x0: "0 < \<bar>x\<bar>" using assms by simp
    have y1: "1 < y" using False x0 by (simp add: y_def field_simps)
    have m: "0 < m" unfolding m_def using y1 by linarith
    have my: "of_int m < y" unfolding m_def by linarith
    have ym: "y \<le> of_int m + 1" unfolding m_def by linarith
    have e: "expo x = - bitlen m" using False by (simp add: expo_def m_def y_def)
    have b1: "1 \<le> bitlen m" using m bitlen_eq_zero_iff [of m] bitlen_nonneg [of m] by linarith
    from bitlen_bounds [OF m]
    have lo: "2 ^ nat (bitlen m - 1) \<le> m" and hi: "m < 2 ^ nat (bitlen m)" by auto
    have "m + 1 \<le> 2 ^ nat (bitlen m)" using hi by simp
    then have "(of_int (m + 1) :: real) \<le> of_int (2 ^ nat (bitlen m))"
      by (simp only: of_int_le_iff)
    then have mP: "of_int m + 1 \<le> P" by (simp add: P_def)
    have "(of_int (2 ^ nat (bitlen m - 1)) :: real) \<le> of_int m"
      using lo by (simp only: of_int_le_iff)
    then have Qm: "Q \<le> of_int m" by (simp add: Q_def)
    have P0: "0 < P" and Q0: "0 < Q" by (simp_all add: P_def Q_def)
    have yP: "y \<le> P" using ym mP by linarith
    have Qy: "Q < y" using Qm my by linarith
    have xy: "\<bar>x\<bar> = 1 / y" by (simp add: y_def)
    have y0: "0 < y" using y1 by linarith
    have "1 / P \<le> 1 / y" using yP y0 by (intro divide_left_mono) auto
    moreover have "(2::real) powi expo x = 1 / P"
      using b1 by (simp add: e P_def power_int_minus_divide power_int_nonneg_exp)
    ultimately have 1: "2 powi expo x \<le> \<bar>x\<bar>" by (simp add: xy)
    have "1 / y < 1 / Q" using Qy Q0 by (intro divide_strict_left_mono) auto
    moreover have "(2::real) powi (expo x + 1) = 1 / Q"
    proof -
      have "expo x + 1 = - (bitlen m - 1)" by (simp add: e)
      then have "(2::real) powi (expo x + 1) = 1 / 2 powi (bitlen m - 1)"
        by (simp only: power_int_minus_divide)
      also have "(2::real) powi (bitlen m - 1) = Q"
        using b1 by (simp add: Q_def power_int_nonneg_exp)
      finally show ?thesis .
    qed
    ultimately have 2: "\<bar>x\<bar> < 2 powi (expo x + 1)" by (simp add: xy)
    from 1 2 show ?thesis ..
  qed
  then show "2 powi expo x \<le> \<bar>x\<bar>" and "\<bar>x\<bar> < 2 powi (expo x + 1)" by simp_all
qed

lemma expo_eqI:
  assumes "2 powi E \<le> \<bar>x\<bar>" and "\<bar>x\<bar> < 2 powi (E + 1)"
  shows "expo x = E"
proof -
  have "(0::real) < 2 powi E" by simp
  with assms(1) have "0 < \<bar>x\<bar>" by linarith
  then have "x \<noteq> 0" by auto
  note b = expo_bounds [OF this]
  have "expo x < E + 1" using b(1) assms(2) by (rule powi_less_exp)
  moreover have "E < expo x + 1" using assms(1) b(2) by (rule powi_less_exp)
  ultimately show ?thesis by simp
qed

lemma grid_0 [simp]: "grid e 0 = 0"
  by (simp add: grid_def rhe_def)

lemma binary64_0 [simp]: "binary64 0 = 0"
  by (simp add: binary64_def)

lemma binary64_minus: "binary64 (- x) = - binary64 x"
  by (simp add: binary64_def grid_minus)

lemma pow2_shift: "of_int (2 ^ n) * (2::real) powi e = 2 powi (e + int n)"
  by (simp add: power_int_add)

lemma grid_pow2: "e \<le> E \<Longrightarrow> grid e (2 powi E) = 2 powi E"
proof -
  assume "e \<le> E"
  then have "E = e + int (nat (E - e))" by simp
  then have "(2::real) powi E = of_int (2 ^ nat (E - e)) * 2 powi e"
    by (metis pow2_shift)
  then show ?thesis by (metis grid_fixed)
qed

lemma binary64_mono_pos:
  assumes "0 < x" and "x \<le> y"
  shows "binary64 x \<le> binary64 y"
proof -
  define Mx where "Mx = max (expo x) (- 1022)"
  define My where "My = max (expo y) (- 1022)"
  have x0: "x \<noteq> 0" and y0: "y \<noteq> 0" using assms by auto
  have ax: "\<bar>x\<bar> = x" and ay: "\<bar>y\<bar> = y" using assms by auto
  note bx = expo_bounds [OF x0, unfolded ax]
  note by' = expo_bounds [OF y0, unfolded ay]
  have "2 powi expo x \<le> y" using bx(1) assms(2) by linarith
  then have exy: "expo x < expo y + 1" using by'(2) by (rule powi_less_exp)
  then have M: "Mx \<le> My" by (simp add: Mx_def My_def)
  have fx: "binary64 x = grid (Mx - 52) x" by (simp add: binary64_def Mx_def)
  have fy: "binary64 y = grid (My - 52) y" by (simp add: binary64_def My_def)
  show ?thesis
  proof (cases "Mx = My")
    case True
    then show ?thesis using assms(2) by (simp add: fx fy grid_mono)
  next
    case False
    with M have lt: "Mx < My" by simp
    have "- 1022 \<le> Mx" by (simp add: Mx_def)
    with lt have Mye: "My = expo y" by (simp add: My_def)
    have "expo x + 1 \<le> Mx + 1" by (simp add: Mx_def)
    then have "(2::real) powi (expo x + 1) \<le> 2 powi (Mx + 1)"
      by (intro power_int_increasing) auto
    with bx(2) have "x \<le> 2 powi (Mx + 1)" by linarith
    then have "grid (Mx - 52) x \<le> grid (Mx - 52) (2 powi (Mx + 1))" by (rule grid_mono)
    also have "\<dots> = 2 powi (Mx + 1)" by (rule grid_pow2) simp
    also have "\<dots> \<le> 2 powi My" using lt by (intro power_int_increasing) auto
    also have "\<dots> = grid (My - 52) (2 powi My)" by (rule grid_pow2 [symmetric]) simp
    also have "\<dots> \<le> grid (My - 52) y" using by'(1) by (intro grid_mono) (simp add: Mye)
    finally show ?thesis by (simp add: fx fy)
  qed
qed

lemma binary64_nonneg: "0 \<le> x \<Longrightarrow> 0 \<le> binary64 x"
  using grid_mono [of 0 x] by (simp add: binary64_def)

lemma binary64_mono:
  assumes "x \<le> y"
  shows "binary64 x \<le> binary64 y"
proof -
  consider "0 < x" | "x \<le> 0" "0 \<le> y" | "y < 0" by linarith
  then show ?thesis
  proof cases
    case 1
    then show ?thesis using assms by (rule binary64_mono_pos)
  next
    case 2
    have "0 \<le> binary64 (- x)" using 2(1) by (intro binary64_nonneg) simp
    then have "binary64 x \<le> 0" by (simp add: binary64_minus)
    moreover have "0 \<le> binary64 y" using 2(2) by (rule binary64_nonneg)
    ultimately show ?thesis by linarith
  next
    case 3
    have "binary64 (- y) \<le> binary64 (- x)"
      using 3 assms by (intro binary64_mono_pos) auto
    then show ?thesis by (simp add: binary64_minus)
  qed
qed

lemma binary64_err: "\<bar>binary64 x - x\<bar> \<le> \<bar>x\<bar> / 2 ^ 53 + 1 / 2 ^ 1075"
proof (cases "x = 0")
  case True
  then show ?thesis by simp
next
  case False
  note b = expo_bounds [OF False]
  define e where "e = max (expo x) (- 1022) - 52"
  have g: "\<bar>binary64 x - x\<bar> \<le> 2 powi e / 2"
    unfolding binary64_def e_def by (rule grid_err)
  show ?thesis
  proof (cases "- 1022 \<le> expo x")
    case True
    then have "e = expo x - 52" by (simp add: e_def)
    then have "(2::real) powi e = 2 powi expo x / 2 ^ 52"
      by (simp add: power_int_diff)
    then have "(2::real) powi e / 2 = 2 powi expo x / 2 ^ 53" by simp
    also have "\<dots> \<le> \<bar>x\<bar> / 2 ^ 53" using b(1) by (intro divide_right_mono) auto
    finally have "\<bar>binary64 x - x\<bar> \<le> \<bar>x\<bar> / 2 ^ 53" using g by linarith
    moreover have "(0::real) \<le> 1 / 2 ^ 1075" by simp
    ultimately show ?thesis by linarith
  next
    case False
    then have "e = - 1074" by (simp add: e_def)
    then have "(2::real) powi e / 2 = 1 / 2 ^ 1075"
      by (simp add: power_int_minus_divide)
    moreover have "0 \<le> \<bar>x\<bar> / 2 ^ 53" by simp
    ultimately show ?thesis using g by linarith
  qed
qed

lemma binary64_fixed:
  assumes "\<bar>k\<bar> < 2 ^ 53" and "- 1074 \<le> e"
  shows "binary64 (of_int k * 2 powi e) = of_int k * 2 powi e"
proof (cases "k = 0")
  case True
  then show ?thesis by simp
next
  case False
  define x :: real where "x = of_int k * 2 powi e"
  have x0: "x \<noteq> 0" using False by (simp add: x_def)
  note b = expo_bounds [OF x0]
  have k: "(of_int \<bar>k\<bar> :: real) < of_int (2 ^ 53)"
    using assms(1) by (simp only: of_int_less_iff)
  have "\<bar>x\<bar> = of_int \<bar>k\<bar> * 2 powi e" by (simp add: x_def abs_mult)
  also have "\<dots> < of_int (2 ^ 53) * 2 powi e"
    using k by (intro mult_strict_right_mono) auto
  also have "\<dots> = 2 powi (e + 53)"
    using pow2_shift [of 53 e] by simp
  finally have "\<bar>x\<bar> < 2 powi (e + 53)" .
  with b(1) have "expo x < e + 53" by (rule powi_less_exp)
  then have le: "max (expo x) (- 1022) - 52 \<le> e" using assms(2) by simp
  define d where "d = nat (e - (max (expo x) (- 1022) - 52))"
  have "e = (max (expo x) (- 1022) - 52) + int d" using le by (simp add: d_def)
  then have "(2::real) powi e = of_int (2 ^ d) * 2 powi (max (expo x) (- 1022) - 52)"
    by (metis pow2_shift)
  then have "x = of_int (k * 2 ^ d) * 2 powi (max (expo x) (- 1022) - 52)"
    by (simp add: x_def)
  then have "grid (max (expo x) (- 1022) - 52) x = x" by (metis grid_fixed)
  then show ?thesis by (simp add: binary64_def x_def)
qed

lemma binary64_of_int:
  assumes "\<bar>n\<bar> \<le> 2 ^ 53"
  shows "binary64 (of_int n) = of_int n"
proof (cases "\<bar>n\<bar> < 2 ^ 53")
  case True
  then show ?thesis using binary64_fixed [of n 0] by simp
next
  case False
  with assms have "n = 2 ^ 53 \<or> n = - (2 ^ 53)" by auto
  then have "(of_int n :: real) = of_int (n div 2) * 2 powi 1" by auto
  moreover have "\<bar>n div 2\<bar> < 2 ^ 53" using \<open>n = 2 ^ 53 \<or> n = - (2 ^ 53)\<close> by auto
  ultimately show ?thesis using binary64_fixed [of "n div 2" 1] by simp
qed

lemma binary64_eqI:
  assumes "2 powi E \<le> \<bar>x\<bar>" and "\<bar>x\<bar> < 2 powi (E + 1)" and "- 1022 \<le> E"
    and "rhe (x / 2 powi (E - 52)) = m"
  shows "binary64 x = of_int m * 2 powi (E - 52)"
proof -
  have "expo x = E" using assms(1,2) by (rule expo_eqI)
  then show ?thesis using assms(3,4) by (simp add: binary64_def grid_def)
qed

section \<open>Properties of the demo feed generator\<close>

lemma noise_bounds:
  assumes "0 \<le> u" and "u < 1" and "0 \<le> r"
    and "binary64 r = r" and "binary64 (r * 2) = r * 2"
  shows "\<bar>noise u r\<bar> \<le> r"
proof -
  define a where "a = mul64 u r"
  define b where "b = mul64 a 2"
  have ur0: "0 \<le> u * r" using assms(1,3) by simp
  have ur1: "u * r \<le> 1 * r" using assms(1,2,3) by (intro mult_right_mono) auto
  have a0: "0 \<le> a" unfolding a_def mul64_def using ur0 by (rule binary64_nonneg)
  have "binary64 (u * r) \<le> binary64 r" using ur1 by (intro binary64_mono) simp
  then have a1: "a \<le> r" by (simp add: a_def mul64_def assms(4))
  have b0: "0 \<le> b" unfolding b_def mul64_def using a0 by (intro binary64_nonneg) simp
  have "binary64 (a * 2) \<le> binary64 (r * 2)" using a1 by (intro binary64_mono) simp
  then have b1: "b \<le> r * 2" by (simp add: b_def mul64_def assms(5))
  have n: "noise u r = binary64 (b - r)"
    by (simp add: noise_def sub64_def a_def b_def)
  have "binary64 (b - r) \<le> binary64 r" using b1 by (intro binary64_mono) simp
  then have up: "noise u r \<le> r" by (simp add: n assms(4))
  have "binary64 (- r) \<le> binary64 (b - r)" using b0 by (intro binary64_mono) simp
  then have lo: "- r \<le> noise u r" by (simp add: n binary64_minus assms(4))
  from lo up show ?thesis by (simp add: abs_le_iff)
qed

lemma add64_near:
  assumes "\<bar>n\<bar> \<le> r"
  shows "\<bar>add64 b n - b\<bar> \<le> r + (\<bar>b\<bar> + r) / 2 ^ 53 + 1 / 2 ^ 1075"
proof -
  have e: "\<bar>binary64 (b + n) - (b + n)\<bar> \<le> \<bar>b + n\<bar> / 2 ^ 53 + 1 / 2 ^ 1075"
    by (rule binary64_err)
  have "\<bar>b + n\<bar> \<le> \<bar>b\<bar> + r" using assms by linarith
  then have "\<bar>b + n\<bar> / 2 ^ 53 \<le> (\<bar>b\<bar> + r) / 2 ^ 53" by (intro divide_right_mono) auto
  with e have "\<bar>binary64 (b + n) - (b + n)\<bar> \<le> (\<bar>b\<bar> + r) / 2 ^ 53 + 1 / 2 ^ 1075"
    by linarith
  with assms show ?thesis unfolding add64_def by linarith
qed

text \<open>The number that the literal \<^verbatim>\<open>0.3\<close> denotes, a little below 3/10.\<close>

lemma literal_0_3: "binary64 (3 / 10) = 5404319552844595 / 2 ^ 54"
proof -
  have "binary64 (3 / 10) = of_int 5404319552844595 * 2 powi (- 2 - 52)"
    by (rule binary64_eqI) (simp_all add: rhe_def Let_def)
  then show ?thesis by (simp add: power_int_minus_divide)
qed

lemma literal_0_3_fixed:
  "binary64 (5404319552844595 / 2 ^ 54) = 5404319552844595 / 2 ^ 54"
  "binary64 (5404319552844595 / 2 ^ 54 * 2) = 5404319552844595 / 2 ^ 54 * 2"
  using binary64_fixed [of 5404319552844595 "- 54"] binary64_fixed [of 5404319552844595 "- 53"]
  by (simp_all add: power_int_minus_divide)

lemma small_int_fixed:
  "binary64 1 = 1" "binary64 2 = 2" "binary64 4 = 4" "binary64 5 = 5" "binary64 10 = 10"
  using binary64_of_int [of 1] binary64_of_int [of 2] binary64_of_int [of 4]
    binary64_of_int [of 5] binary64_of_int [of 10]
  by simp_all

lemma noise_suhu:
  "0 \<le> u \<Longrightarrow> u < 1 \<Longrightarrow> \<bar>noise u (binary64 (3 / 10))\<bar> \<le> 3 / 10"
proof -
  assume u: "0 \<le> u" "u < 1"
  have "\<bar>noise u (5404319552844595 / 2 ^ 54)\<bar> \<le> 5404319552844595 / 2 ^ 54"
    using u by (intro noise_bounds literal_0_3_fixed) simp_all
  then show ?thesis by (simp add: literal_0_3)
qed

lemma noise_int:
  "0 \<le> u \<Longrightarrow> u < 1 \<Longrightarrow> \<bar>noise u 1\<bar> \<le> 1 \<and> \<bar>noise u 5\<bar> \<le> 5 \<and> \<bar>noise u 2\<bar> \<le> 2"
  using noise_bounds [of u 1] noise_bounds [of u 5] noise_bounds [of u 2]
  by (simp add: small_int_fixed)

lemma last_id_or_0_eq:
  "add64 (last_id_or_0 lst) 1 = (case lst of None \<Rightarrow> 1 | Some p \<Rightarrow> binary64 (id_row p + 1))"
  by (simp add: last_id_or_0_def add64_def small_int_fixed split: option.splits)

lemma next_small_id:
  assumes "x = of_int n" and "\<bar>n\<bar> < 2 ^ 53"
  shows "binary64 (x + 1) = x + 1"
proof -
  have "\<bar>n + 1\<bar> \<le> 2 ^ 53" using assms(2) by linarith
  then have "binary64 (of_int (n + 1)) = of_int (n + 1)" by (rule binary64_of_int)
  then show ?thesis by (simp add: assms(1))
qed

text \<open>
  Claim C6, as amended. For every baseline, every optional previous reading and every
  outcome of the four calls of \<^verbatim>\<open>Math.random()\<close> (each in \<open>[0, 1)\<close>), the generated
  reading has its four measurements present and within the half-widths 0.3, 1, 5 and 2 of
  the baseline values up to the rounding of the binary64 addition, which is at most
  \<open>(\<bar>base\<bar> + half-width) / 2\<^sup>5\<^sup>3 + 2\<^sup>-\<^sup>1\<^sup>0\<^sup>7\<^sup>5\<close>. Its identifier is 1 without a previous
  reading and otherwise the binary64 sum of the previous identifier and 1, which is the
  previous identifier plus one when that is an integer of magnitude below \<open>2\<^sup>5\<^sup>3\<close>. Its raw
  timestamp is the first reading of the clock and its formatted timestamp is
  \<^verbatim>\<open>toWIB\<close> of the second reading of the clock made in the same call.
\<close>

theorem generateDemoData_within_rounded_noise:
  assumes "0 \<le> rnd_suhu d \<and> rnd_suhu d < 1"
    and "0 \<le> rnd_kelembapan d \<and> rnd_kelembapan d < 1"
    and "0 \<le> rnd_cahaya d \<and> rnd_cahaya d < 1"
    and "0 \<le> rnd_suara d \<and> rnd_suara d < 1"
  shows "(\<exists>t k c s.
            suhu (generateDemoData h base lst d) = Some t \<and>
            \<bar>t - suhu_sp base\<bar> \<le> 3 / 10 + (\<bar>suhu_sp base\<bar> + 3 / 10) / 2 ^ 53 + 1 / 2 ^ 1075 \<and>
            kelembapan (generateDemoData h base lst d) = Some k \<and>
            \<bar>k - kelembapan_sp base\<bar> \<le> 1 + (\<bar>kelembapan_sp base\<bar> + 1) / 2 ^ 53 + 1 / 2 ^ 1075 \<and>
            cahaya (generateDemoData h base lst d) = Some c \<and>
            \<bar>c - cahaya_sp base\<bar> \<le> 5 + (\<bar>cahaya_sp base\<bar> + 5) / 2 ^ 53 + 1 / 2 ^ 1075 \<and>
            suara (generateDemoData h base lst d) = Some s \<and>
            \<bar>s - suara_sp base\<bar> \<le> 2 + (\<bar>suara_sp base\<bar> + 2) / 2 ^ 53 + 1 / 2 ^ 1075) \<and>
         id_row (generateDemoData h base lst d) =
           (case lst of None \<Rightarrow> 1 | Some p \<Rightarrow> binary64 (id_row p + 1)) \<and>
         (\<forall>p n. lst = Some p \<and> id_row p = of_int n \<and> \<bar>n\<bar> < 2 ^ 53 \<longrightarrow>
            id_row (generateDemoData h base lst d) = id_row p + 1) \<and>
         timestamp (generateDemoData h base lst d) = now_iso d \<and>
         timestamp_wib (generateDemoData h base lst d) = Some (toWIB h (now_wib d))"
proof -
  have 1: "\<bar>add64 (suhu_sp base) (noise (rnd_suhu d) (binary64 (3 / 10))) - suhu_sp base\<bar>
      \<le> 3 / 10 + (\<bar>suhu_sp base\<bar> + 3 / 10) / 2 ^ 53 + 1 / 2 ^ 1075"
  proof (rule add64_near)
    show "\<bar>noise (rnd_suhu d) (binary64 (3 / 10))\<bar> \<le> 3 / 10"
      using assms(1) by (intro noise_suhu) auto
  qed
  have 2: "\<bar>add64 (kelembapan_sp base) (noise (rnd_kelembapan d) 1) - kelembapan_sp base\<bar>
      \<le> 1 + (\<bar>kelembapan_sp base\<bar> + 1) / 2 ^ 53 + 1 / 2 ^ 1075"
  proof (rule add64_near)
    show "\<bar>noise (rnd_kelembapan d) 1\<bar> \<le> 1"
      using assms(2) noise_int [of "rnd_kelembapan d"] by blast
  qed
  have 3: "\<bar>add64 (cahaya_sp base) (noise (rnd_cahaya d) 5) - cahaya_sp base\<bar>
      \<le> 5 + (\<bar>cahaya_sp base\<bar> + 5) / 2 ^ 53 + 1 / 2 ^ 1075"
  proof (rule add64_near)
    show "\<bar>noise (rnd_cahaya d) 5\<bar> \<le> 5"
      using assms(3) noise_int [of "rnd_cahaya d"] by blast
  qed
  have 4: "\<bar>add64 (suara_sp base) (noise (rnd_suara d) 2) - suara_sp base\<bar>
      \<le> 2 + (\<bar>suara_sp base\<bar> + 2) / 2 ^ 53 + 1 / 2 ^ 1075"
  proof (rule add64_near)
    show "\<bar>noise (rnd_suara d) 2\<bar> \<le> 2"
      using assms(4) noise_int [of "rnd_suara d"] by blast
  qed
  have s1: "suhu (generateDemoData h base lst d) =
      Some (add64 (suhu_sp base) (noise (rnd_suhu d) (binary64 (3 / 10))))"
    and s2: "kelembapan (generateDemoData h base lst d) =
      Some (add64 (kelembapan_sp base) (noise (rnd_kelembapan d) 1))"
    and s3: "cahaya (generateDemoData h base lst d) =
      Some (add64 (cahaya_sp base) (noise (rnd_cahaya d) 5))"
    and s4: "suara (generateDemoData h base lst d) =
      Some (add64 (suara_sp base) (noise (rnd_suara d) 2))"
    unfolding generateDemoData_def by (simp_all only: SensorRow.simps)
  have m: "\<exists>t k c s.
            suhu (generateDemoData h base lst d) = Some t \<and>
            \<bar>t - suhu_sp base\<bar> \<le> 3 / 10 + (\<bar>suhu_sp base\<bar> + 3 / 10) / 2 ^ 53 + 1 / 2 ^ 1075 \<and>
            kelembapan (generateDemoData h base lst d) = Some k \<and>
            \<bar>k - kelembapan_sp base\<bar> \<le> 1 + (\<bar>kelembapan_sp base\<bar> + 1) / 2 ^ 53 + 1 / 2 ^ 1075 \<and>
            cahaya (generateDemoData h base lst d) = Some c \<and>
            \<bar>c - cahaya_sp base\<bar> \<le> 5 + (\<bar>cahaya_sp base\<bar> + 5) / 2 ^ 53 + 1 / 2 ^ 1075 \<and>
            suara (generateDemoData h base lst d) = Some s \<and>
            \<bar>s - suara_sp base\<bar> \<le> 2 + (\<bar>suara_sp base\<bar> + 2) / 2 ^ 53 + 1 / 2 ^ 1075"
    using 1 2 3 4 s1 s2 s3 s4 by blast
  have i: "id_row (generateDemoData h base lst d) =
           (case lst of None \<Rightarrow> 1 | Some p \<Rightarrow> binary64 (id_row p + 1))"
    by (simp add: generateDemoData_def last_id_or_0_eq)
  have j: "\<forall>p n. lst = Some p \<and> id_row p = of_int n \<and> \<bar>n\<bar> < 2 ^ 53 \<longrightarrow>
            id_row (generateDemoData h base lst d) = id_row p + 1"
  proof (intro allI impI)
    fix p n
    assume a: "lst = Some p \<and> id_row p = of_int n \<and> \<bar>n\<bar> < 2 ^ 53"
    then have "binary64 (id_row p + 1) = id_row p + 1"
      using next_small_id [of "id_row p" n] by blast
    with i a show "id_row (generateDemoData h base lst d) = id_row p + 1" by simp
  qed
  have t: "timestamp (generateDemoData h base lst d) = now_iso d \<and>
         timestamp_wib (generateDemoData h base lst d) = Some (toWIB h (now_wib d))"
    by (simp add: generateDemoData_def)
  from m i j t show ?thesis by blast
qed

lemma sample_suhu:
  "suhu (generateDemoData sample_host default_setpoint lst sample_draws) =
     Some (6952431924753203 / 2 ^ 48)"
proof -
  have n: "noise 0 (5404319552844595 / 2 ^ 54) = - (5404319552844595 / 2 ^ 54)"
    using literal_0_3_fixed(1)
    by (simp add: noise_def mul64_def sub64_def binary64_minus del: power_numeral)
  have "binary64 (25 + - (5404319552844595 / 2 ^ 54)) =
      of_int 6952431924753203 * 2 powi (4 - 52)"
    by (rule binary64_eqI) (simp_all add: rhe_def Let_def)
  then have "binary64 (25 + - (5404319552844595 / 2 ^ 54)) = 6952431924753203 / 2 ^ 48"
    by (simp add: power_int_minus_divide)
  then show ?thesis
    using n
    by (simp add: generateDemoData_def sample_draws_def default_setpoint_def add64_def
        literal_0_3 del: power_numeral)
qed

lemma sample_id_after_big_row:
  "id_row (generateDemoData sample_host default_setpoint (Some big_row) sample_draws) = 2 ^ 53"
proof -
  have "binary64 (2 ^ 53 + 1) = of_int (2 ^ 52) * 2 powi (53 - 52)"
    by (rule binary64_eqI) (simp_all add: rhe_def Let_def)
  then have "binary64 (2 ^ 53 + 1) = 2 ^ 53" by simp
  then show ?thesis
    by (simp add: generateDemoData_def last_id_or_0_def add64_def big_row_def)
qed

theorem generateDemoData_within_rounded_noise_witness:
  "(0 \<le> rnd_suhu sample_draws \<and> rnd_suhu sample_draws < 1) \<and>
   (0 \<le> rnd_kelembapan sample_draws \<and> rnd_kelembapan sample_draws < 1) \<and>
   (0 \<le> rnd_cahaya sample_draws \<and> rnd_cahaya sample_draws < 1) \<and>
   (0 \<le> rnd_suara sample_draws \<and> rnd_suara sample_draws < 1) \<and>
   suhu (generateDemoData sample_host default_setpoint None sample_draws) =
     Some (6952431924753203 / 2 ^ 48) \<and>
   \<bar>6952431924753203 / 2 ^ 48 - suhu_sp default_setpoint\<bar>
     \<le> 3 / 10 + (\<bar>suhu_sp default_setpoint\<bar> + 3 / 10) / 2 ^ 53 + 1 / 2 ^ 1075 \<and>
   id_row (generateDemoData sample_host default_setpoint None sample_draws) = 1 \<and>
   id_row (sample_row 7) = of_int 7 \<and> \<bar>7 :: int\<bar> < 2 ^ 53 \<and>
   id_row (generateDemoData sample_host default_setpoint (Some (sample_row 7)) sample_draws) = 8 \<and>
   timestamp_wib (generateDemoData sample_host default_setpoint None sample_draws) =
     Some ''05:00:00''"
proof -
  have h: "(0 \<le> rnd_suhu sample_draws \<and> rnd_suhu sample_draws < 1)"
    "(0 \<le> rnd_kelembapan sample_draws \<and> rnd_kelembapan sample_draws < 1)"
    "(0 \<le> rnd_cahaya sample_draws \<and> rnd_cahaya sample_draws < 1)"
    "(0 \<le> rnd_suara sample_draws \<and> rnd_suara sample_draws < 1)"
    by (simp_all add: sample_draws_def)
  note a = generateDemoData_within_rounded_noise [OF h, of sample_host default_setpoint None]
  note b = generateDemoData_within_rounded_noise
    [OF h, of sample_host default_setpoint "Some (sample_row 7)"]
  from a obtain t where t: "suhu (generateDemoData sample_host default_setpoint None sample_draws) = Some t"
    and tb: "\<bar>t - suhu_sp default_setpoint\<bar>
      \<le> 3 / 10 + (\<bar>suhu_sp default_setpoint\<bar> + 3 / 10) / 2 ^ 53 + 1 / 2 ^ 1075"
    by blast
  have v: "suhu (generateDemoData sample_host default_setpoint None sample_draws) =
      Some (6952431924753203 / 2 ^ 48)"
    by (rule sample_suhu)
  from t v have "t = 6952431924753203 / 2 ^ 48" by (simp only: option.inject)
  with tb have 1: "\<bar>6952431924753203 / 2 ^ 48 - suhu_sp default_setpoint\<bar>
      \<le> 3 / 10 + (\<bar>suhu_sp default_setpoint\<bar> + 3 / 10) / 2 ^ 53 + 1 / 2 ^ 1075"
    by (simp only:)
  from a have 2: "id_row (generateDemoData sample_host default_setpoint None sample_draws) = 1"
    by (simp only: option.case)
  have 3: "id_row (sample_row 7) = of_int 7" by (simp add: sample_row_def)
  have 4: "\<bar>7 :: int\<bar> < 2 ^ 53" by simp
  from b 3 4 have "id_row (generateDemoData sample_host default_setpoint
      (Some (sample_row 7)) sample_draws) = id_row (sample_row 7) + 1"
    by blast
  then have 5: "id_row (generateDemoData sample_host default_setpoint
      (Some (sample_row 7)) sample_draws) = 8"
    by (simp add: sample_row_def)
  from a have 6: "timestamp_wib (generateDemoData sample_host default_setpoint None sample_draws) =
     Some ''05:00:00''"
    by (simp add: sample_host_def sample_draws_def)
  from h v 1 2 3 4 5 6 show ?thesis by blast
qed

text \<open>
  The band of the claim as it stands is left: with \<^verbatim>\<open>Math.random()\<close> returning 0 and the
  default baseline 25, the temperature is \<open>6952431924753203 / 2\<^sup>4\<^sup>8\<close>, further than 3/10
  from 25; and after a reading with identifier \<open>2\<^sup>5\<^sup>3\<close> the identifier is \<open>2\<^sup>5\<^sup>3\<close> again.
\<close>

theorem generateDemoData_exact_band_counterexample:
  "0 \<le> rnd_suhu sample_draws \<and> rnd_suhu sample_draws < 1 \<and>
   suhu (generateDemoData sample_host default_setpoint None sample_draws) =
     Some (6952431924753203 / 2 ^ 48) \<and>
   \<not> \<bar>6952431924753203 / 2 ^ 48 - suhu_sp default_setpoint\<bar> \<le> 3 / 10 \<and>
   id_row (generateDemoData sample_host default_setpoint (Some big_row) sample_draws) =
     id_row big_row \<and>
   id_row (generateDemoData sample_host default_setpoint (Some big_row) sample_draws) \<noteq>
     id_row big_row + 1"
proof -
  have 1: "0 \<le> rnd_suhu sample_draws \<and> rnd_suhu sample_draws < 1"
    by (simp add: sample_draws_def)
  have 2: "\<not> \<bar>6952431924753203 / 2 ^ 48 - suhu_sp default_setpoint\<bar> \<le> 3 / 10"
    by (simp add: default_setpoint_def)
  have 3: "id_row big_row = 2 ^ 53" by (simp add: big_row_def)
  have 4: "id_row (generateDemoData sample_host default_setpoint (Some big_row) sample_draws) =
     id_row big_row"
    by (simp only: sample_id_after_big_row 3)
  have 5: "id_row (generateDemoData sample_host default_setpoint (Some big_row) sample_draws) \<noteq>
     id_row big_row + 1"
    by (simp add: 4)
  from 1 2 4 5 sample_suhu [of None] show ?thesis by blast
qed

section \<open>Properties of the demo feed\<close>

lemma data_interval_callback:
  "data (interval_callback h base d st) = demo_tick h base d (data st)"
  by (simp add: interval_callback_def)

lemma interval_callback_other:
  "interval_callback h base d st = st\<lparr>data := data (interval_callback h base d st)\<rparr>"
  by (simp add: interval_callback_def)

lemma length_demo_tick: "length (demo_tick h base d prev) = min (length prev + 1) 500"
  by (simp add: demo_tick_def Let_def)

lemma demo_tick_drop:
  "demo_tick h base d prev =
     drop (length prev + 1 - 500) (prev @ [generateDemoData h base (last_row prev) d])"
  by (simp add: demo_tick_def Let_def)

lemma last_row_demo_tick:
  "last_row (demo_tick h base d prev) = Some (generateDemoData h base (last_row prev) d)"
proof -
  have "demo_tick h base d prev =
      (if length prev \<ge> 500 then drop (length prev - 499) prev else prev)
        @ [generateDemoData h base (last_row prev) d]"
    by (simp add: demo_tick_def Let_def)
  then show ?thesis
    by (simp add: last_row_def nth_append)
qed

lemma length_generated_readings: "length (generated_readings h base lst ds) = length ds"
  by (induction ds arbitrary: lst) simp_all

text \<open>From a buffer within capacity, a run of ticks leaves the final 500 entries of the
  old buffer followed by everything generated.\<close>

lemma interval_run_window:
  "length (data st) \<le> 500 \<Longrightarrow>
   data (interval_run h base ds st) =
     drop (length (data st) + length ds - 500)
       (data st @ generated_readings h base (last_row (data st)) ds)"
proof (induction ds arbitrary: st)
  case Nil
  then show ?case by simp
next
  case (Cons d ds)
  let ?n = "generateDemoData h base (last_row (data st)) d"
  let ?st = "interval_callback h base d st"
  let ?g = "generated_readings h base (Some ?n) ds"
  have b: "data ?st = demo_tick h base d (data st)" by (rule data_interval_callback)
  have len: "length (data ?st) \<le> 500" by (simp add: b length_demo_tick)
  have lr: "last_row (data ?st) = Some ?n" by (simp add: b last_row_demo_tick)
  have ih: "data (interval_run h base ds ?st) =
      drop (length (data ?st) + length ds - 500) (data ?st @ ?g)"
    using Cons.IH [OF len] by (simp only: lr)
  show ?case
  proof (cases "length (data st) < 500")
    case True
    then have "data ?st = data st @ [?n]" by (simp add: b demo_tick_def Let_def)
    then show ?thesis using ih by simp
  next
    case False
    with Cons.prems have l: "length (data st) = 500" by simp
    then have d: "data ?st = drop 1 (data st) @ [?n]" by (simp add: b demo_tick_def Let_def)
    have "length (data ?st) = 500" using l by (simp add: b length_demo_tick)
    then have "data (interval_run h base ds ?st) =
       drop (length ds) (drop 1 (data st) @ ?n # ?g)"
      using ih d by simp
    also have "\<dots> = drop (Suc (length ds)) (data st @ ?n # ?g)"
      using l by (cases "data st") simp_all
    finally show ?thesis using l by simp
  qed
qed

lemma interval_run_recent:
  assumes "length ds = 500 + k" and "0 < k"
  shows "data (interval_run h base ds st) =
           drop k (generated_readings h base (last_row (data st)) ds)"
proof -
  from assms obtain d ds' where ds: "ds = d # ds'" by (cases ds) auto
  let ?n = "generateDemoData h base (last_row (data st)) d"
  let ?st = "interval_callback h base d st"
  let ?g = "generated_readings h base (Some ?n) ds'"
  let ?t = "if length (data st) \<ge> 500 then drop (length (data st) - 499) (data st) else data st"
  have b: "data ?st = demo_tick h base d (data st)" by (rule data_interval_callback)
  have len: "length (data ?st) \<le> 500" by (simp add: b length_demo_tick)
  have lr: "last_row (data ?st) = Some ?n" by (simp add: b last_row_demo_tick)
  have t: "data ?st = ?t @ [?n]" by (simp add: b demo_tick_def Let_def)
  have lt: "length (data ?st) = length ?t + 1" by (subst t) simp
  have lds: "length ds' = 499 + k" using assms ds by simp
  have "data (interval_run h base ds st) = data (interval_run h base ds' ?st)"
    by (simp add: ds)
  also have "\<dots> = drop (length (data ?st) + length ds' - 500) (data ?st @ ?g)"
    using interval_run_window [OF len, of h base ds'] by (simp only: lr)
  also have "length (data ?st) + length ds' - 500 = length ?t + k" using lt lds by simp
  also have "drop (length ?t + k) (data ?st @ ?g) = drop k (?n # ?g)"
    by (subst t) simp
  finally show ?thesis by (simp add: ds)
qed

text \<open>Identifiers count up by one as long as they stay below \<open>2\<^sup>5\<^sup>3\<close>.\<close>

lemma generated_readings_ids:
  "last_id_or_0 lst = of_nat n \<Longrightarrow> n + length ds \<le> 2 ^ 53 \<Longrightarrow>
   map id_row (generated_readings h base lst ds) = map of_nat [n + 1 ..< n + 1 + length ds]"
proof (induction ds arbitrary: lst n)
  case Nil
  then show ?case by simp
next
  case (Cons d ds)
  let ?r = "generateDemoData h base lst d"
  have "\<bar>int n + 1\<bar> \<le> 2 ^ 53" using Cons.prems(2) by simp
  then have "binary64 (of_int (int n + 1)) = of_int (int n + 1)" by (rule binary64_of_int)
  then have "binary64 (of_nat n + 1) = of_nat (n + 1)" by simp
  then have i: "id_row ?r = of_nat (n + 1)"
    by (simp add: generateDemoData_def add64_def Cons.prems(1))
  then have l: "last_id_or_0 (Some ?r) = of_nat (n + 1)"
    by (simp add: last_id_or_0_def)
  have ih: "map id_row (generated_readings h base (Some ?r) ds) =
      map of_nat [n + 1 + 1 ..< n + 1 + 1 + length ds]"
    using Cons.prems(2) by (intro Cons.IH [OF l]) simp
  have u: "[n + 1 ..< n + 1 + length (d # ds)] =
      (n + 1) # [n + 1 + 1 ..< n + 1 + 1 + length ds]"
    by (subst upt_rec) (simp del: upt_Suc)
  show ?case
    unfolding u using i ih by (simp del: upt_Suc)
qed

text \<open>
  Claim C1. In demo mode the timer callback appends exactly one reading, the one
  \<^verbatim>\<open>generateDemoData\<close> makes from the baseline and the last entry, after the buffer has
  been cut to its final 499 entries when it held 500 or more: the new buffer is the final
  500 entries of the old buffer extended by the generated reading, so its length is the old
  length plus one, capped at 500. Hence, for every baseline, every starting state and every
  \<open>k > 0\<close>, after \<open>500 + k\<close> ticks the buffer has length 500 and is the list of the 500 most
  recently generated readings, in the order of their generation, each generated from the
  one before it.
\<close>

theorem interval_callback_sliding_window:
  assumes "length ds = 500 + k" and "0 < k"
  shows "data (interval_callback h base d st) =
           drop (length (data st) + 1 - 500)
             (data st @ [generateDemoData h base (last_row (data st)) d]) \<and>
         length (data (interval_callback h base d st)) = min (length (data st) + 1) 500 \<and>
         length (data (interval_run h base ds st)) = 500 \<and>
         data (interval_run h base ds st) =
           drop k (generated_readings h base (last_row (data st)) ds) \<and>
         generated_readings h base lst [] = [] \<and>
         generated_readings h base lst (d # ds') =
           generateDemoData h base lst d #
           generated_readings h base (Some (generateDemoData h base lst d)) ds'"
proof -
  have eq: "data (interval_run h base ds st) =
      drop k (generated_readings h base (last_row (data st)) ds)"
    using assms by (rule interval_run_recent)
  have "length (generated_readings h base (last_row (data st)) ds) = 500 + k"
    using assms(1) by (simp add: length_generated_readings)
  with eq have l: "length (data (interval_run h base ds st)) = 500" by simp
  from eq l show ?thesis
    by (simp add: data_interval_callback demo_tick_drop length_demo_tick)
qed

theorem interval_callback_sliding_window_witness:
  "length (replicate 501 sample_draws) = 500 + 1 \<and> (0::nat) < 1 \<and>
   length (data (interval_run sample_host default_setpoint (replicate 501 sample_draws)
     init_state)) = 500 \<and>
   data (interval_run sample_host default_setpoint (replicate 501 sample_draws) init_state) =
     drop 1 (generated_readings sample_host default_setpoint None (replicate 501 sample_draws)) \<and>
   map id_row (data (interval_run sample_host default_setpoint (replicate 501 sample_draws)
     init_state)) = map of_nat [2 ..< 502] \<and>
   data (interval_callback sample_host default_setpoint sample_draws init_state) =
     [generateDemoData sample_host default_setpoint None sample_draws]"
proof -
  have h1: "length (replicate 501 sample_draws) = 500 + 1" by simp
  have h2: "(0::nat) < 1" by simp
  have e: "data init_state = []" by (simp add: init_state_def)
  have lr: "last_row (data init_state) = None" by (simp add: e last_row_def)
  note t = interval_callback_sliding_window
    [OF h1 h2, of sample_host default_setpoint sample_draws init_state None "[]"]
  from t have 1: "length (data (interval_run sample_host default_setpoint
      (replicate 501 sample_draws) init_state)) = 500"
    by blast
  from t have 2: "data (interval_run sample_host default_setpoint
      (replicate 501 sample_draws) init_state) =
     drop 1 (generated_readings sample_host default_setpoint None (replicate 501 sample_draws))"
    by (simp only: lr)
  have "map id_row (generated_readings sample_host default_setpoint None
      (replicate 501 sample_draws)) = map of_nat [0 + 1 ..< 0 + 1 + length (replicate 501 sample_draws)]"
    by (rule generated_readings_ids) (simp_all add: last_id_or_0_def)
  then have g: "map id_row (generated_readings sample_host default_setpoint None
      (replicate 501 sample_draws)) = map of_nat [1 ..< 502]"
    by (simp del: upt_Suc)
  have "map id_row (drop 1 (generated_readings sample_host default_setpoint None
      (replicate 501 sample_draws))) =
      drop 1 (map id_row (generated_readings sample_host default_setpoint None
      (replicate 501 sample_draws)))"
    by (rule drop_map [symmetric])
  also have "\<dots> = drop 1 (map of_nat [1 ..< 502])" by (simp only: g)
  also have "\<dots> = map of_nat (drop 1 [1 ..< 502])" by (rule drop_map)
  also have "drop 1 [1 ..< 502] = [1 + 1 ..< 502]" by (rule drop_upt)
  also have "[1 + 1 ..< 502] = [2 ..< 502]" by (simp only: one_add_one)
  finally have 3: "map id_row (data (interval_run sample_host default_setpoint
      (replicate 501 sample_draws) init_state)) = map of_nat [2 ..< 502]"
    by (simp only: 2)
  from t have 4: "data (interval_callback sample_host default_setpoint sample_draws init_state) =
     [generateDemoData sample_host default_setpoint None sample_draws]"
    by (simp add: e last_row_def)
  from h1 h2 1 2 3 4 show ?thesis by blast
qed

section \<open>Properties of the realtime feed\<close>

lemma on_insert_data:
  "data (on_insert h r st) =
     (if length (data st) < 1000 then data st else tl (data st)) @ [with_wib h r]"
  by (cases "data st") (simp_all add: on_insert_def with_wib_def Let_def)

lemma on_insert_other:
  "on_insert h r st = st\<lparr>data := data (on_insert h r st)\<rparr>"
  by (simp add: on_insert_def Let_def)

lemma length_on_insert:
  "length (data (on_insert h r st)) =
     (if length (data st) < 1000 then length (data st) + 1 else length (data st))"
  by (cases "data st") (simp_all add: on_insert_data)

lemma fetchInitial_resolve_ok:
  "error_r resp = None \<Longrightarrow> data_r resp = Some rows \<Longrightarrow>
   fetchInitial_resolve h resp st =
     st\<lparr>data := map (with_wib h) (sort_by_timestamp h rows), loadingData := False\<rparr>"
  by (simp add: fetchInitial_resolve_def Let_def)

lemma fetchInitial_resolve_length:
  "length (data (fetchInitial_resolve h resp st)) =
    (case (error_r resp, data_r resp) of (None, Some rows) \<Rightarrow> length rows | _ \<Rightarrow> length (data st))"
  by (simp add: fetchInitial_resolve_def Let_def sort_by_timestamp_def split: option.splits)

lemma feed_step_bounded:
  "within_limit 500 ev \<Longrightarrow> length (data st) \<le> 1000 \<Longrightarrow>
   length (data (feed_step h st ev)) \<le> 1000"
  by (cases ev) (auto simp: within_limit_def length_on_insert fetchInitial_resolve_length split: option.splits)

lemma feed_run_bounded:
  "\<forall>ev \<in> set evs. within_limit 500 ev \<Longrightarrow> length (data st) \<le> 1000 \<Longrightarrow>
   length (data (feed_run h evs st)) \<le> 1000"
  unfolding feed_run_def
  by (induction evs arbitrary: st) (simp_all add: feed_step_bounded)

lemma timestamp_with_wib [simp]: "timestamp (with_wib h r) = timestamp r"
  by (simp add: with_wib_def)

lemma sorted_bulk:
  "sorted (map (\<lambda>r. getTime h (timestamp r)) (map (with_wib h) (sort_by_timestamp h rows)))"
  by (simp add: o_def sort_by_timestamp_def)

lemma strict_sorted_bulk:
  assumes "distinct (map (\<lambda>r. getTime h (timestamp r)) rows)"
  shows "sorted_wrt (<) (map (\<lambda>r. getTime h (timestamp r)) (map (with_wib h) (sort_by_timestamp h rows)))"
proof -
  let ?k = "\<lambda>r. getTime h (timestamp r)"
  have m: "mset (map ?k (sort_key ?k rows)) = mset (map ?k rows)" by simp
  have "distinct (map ?k (sort_key ?k rows))"
    using mset_eq_imp_distinct_iff [OF m] assms by blast
  then show ?thesis
    by (simp add: o_def sort_by_timestamp_def strict_sorted_iff)
qed

text \<open>
  The bulk load of the realtime mode (second version of the page) asks the store for the
  table of readings ordered by timestamp, newest first, at most 500 rows; when the store
  answers with rows and no error, the buffer is replaced as a whole by those rows sorted by
  timestamp, ascending, each with its formatted timestamp attached. The new buffer is
  sorted by timestamp and is as long as the list of fetched rows (500 for 500 rows), and
  strictly ascending when the timestamps are pairwise different.
\<close>

lemma fetchInitial_bulk_load:
  assumes "store fetchInitial_request = \<lparr>data_r = Some rows, error_r = None\<rparr>"
  shows "table fetchInitial_request = ''sensor_logs'' \<and>
         order_by fetchInitial_request = ''timestamp'' \<and>
         \<not> ascending fetchInitial_request \<and>
         limit fetchInitial_request = 500 \<and>
         fetchInitial h store st =
           st\<lparr>data := map (with_wib h) (sort_by_timestamp h rows), loadingData := False\<rparr> \<and>
         map timestamp_wib (data (fetchInitial h store st)) =
           map (\<lambda>r. Some (toWIB h (timestamp r))) (sort_by_timestamp h rows) \<and>
         mset (data (fetchInitial h store st)) = mset (map (with_wib h) rows) \<and>
         sorted (map (\<lambda>r. getTime h (timestamp r)) (data (fetchInitial h store st))) \<and>
         length (data (fetchInitial h store st)) = length rows \<and>
         (distinct (map (\<lambda>r. getTime h (timestamp r)) rows) \<longrightarrow>
            sorted_wrt (<) (map (\<lambda>r. getTime h (timestamp r)) (data (fetchInitial h store st))))"
proof -
  have eq: "fetchInitial h store st =
      st\<lparr>data := map (with_wib h) (sort_by_timestamp h rows), loadingData := False\<rparr>"
    using assms by (simp add: fetchInitial_def fetchInitial_start_def fetchInitial_resolve_ok)
  have d: "data (fetchInitial h store st) = map (with_wib h) (sort_by_timestamp h rows)"
    by (simp add: eq)
  have w: "map timestamp_wib (data (fetchInitial h store st)) =
      map (\<lambda>r. Some (toWIB h (timestamp r))) (sort_by_timestamp h rows)"
    by (simp add: d with_wib_def)
  have m: "mset (data (fetchInitial h store st)) = mset (map (with_wib h) rows)"
    by (simp add: d sort_by_timestamp_def)
  have l: "length (data (fetchInitial h store st)) = length rows"
    by (simp add: d sort_by_timestamp_def)
  have s: "sorted (map (\<lambda>r. getTime h (timestamp r)) (data (fetchInitial h store st)))"
    unfolding d by (rule sorted_bulk)
  have t: "distinct (map (\<lambda>r. getTime h (timestamp r)) rows) \<longrightarrow>
      sorted_wrt (<) (map (\<lambda>r. getTime h (timestamp r)) (data (fetchInitial h store st)))"
    unfolding d using strict_sorted_bulk [of h rows] by blast
  have q: "table fetchInitial_request = ''sensor_logs'' \<and>
      order_by fetchInitial_request = ''timestamp'' \<and>
      \<not> ascending fetchInitial_request \<and> limit fetchInitial_request = 500"
    by (simp add: fetchInitial_request_def)
  from q eq w m s l t show ?thesis by blast
qed

lemma fetchInitial_bulk_load_500_rows:
  "sample_store fetchInitial_request =
     \<lparr>data_r = Some (map sample_row (rev [0..<500])), error_r = None\<rparr> \<and>
   distinct (map (\<lambda>r. getTime sample_host (timestamp r)) (map sample_row (rev [0..<500]))) \<and>
   length (data (fetchInitial sample_host sample_store init_state)) = 500 \<and>
   sorted_wrt (<) (map (\<lambda>r. getTime sample_host (timestamp r))
      (data (fetchInitial sample_host sample_store init_state)))"
proof -
  have h1: "sample_store fetchInitial_request =
     \<lparr>data_r = Some (map sample_row (rev [0..<500])), error_r = None\<rparr>"
    by (simp add: sample_store_def fetchInitial_request_def)
  have h2: "distinct (map (\<lambda>r. getTime sample_host (timestamp r)) (map sample_row (rev [0..<500])))"
    by (simp add: o_def sample_host_def sample_row_def distinct_map inj_on_def)
  note t = fetchInitial_bulk_load
    [where store = sample_store and rows = "map sample_row (rev [0..<500])"
       and h = sample_host and st = init_state, OF h1]
  from t have "length (data (fetchInitial sample_host sample_store init_state)) =
      length (map sample_row (rev [0..<500]))"
    by blast
  then have l: "length (data (fetchInitial sample_host sample_store init_state)) = 500"
    by simp
  from t h2 have s: "sorted_wrt (<) (map (\<lambda>r. getTime sample_host (timestamp r))
      (data (fetchInitial sample_host sample_store init_state)))"
    by blast
  show ?thesis using h1 h2 l s by blast
qed

text \<open>Three rows delivered newest first come out oldest first.\<close>

lemma fetchInitial_three_rows:
  "map id_row (data (fetchInitial sample_host
      (\<lambda>q. \<lparr>data_r = Some (map sample_row [2, 1, 0]), error_r = None\<rparr>) init_state)) = [0, 1, 2]"
  by (simp add: fetchInitial_def fetchInitial_resolve_def fetchInitial_start_def
      sort_by_timestamp_def sample_row_def sample_host_def with_wib_def Let_def)

text \<open>
  Claim C2. The handler of a pushed insertion puts exactly one reading, the pushed one
  with its formatted timestamp attached, at the end of the buffer and leaves the entries
  before it in their order; when the buffer is longer than 1000 after that, exactly the
  first entry is removed. So a buffer of at most 1000 entries stays at most 1000 long, and
  from the initial state, with bulk loads of at most 500 rows, the buffer holds at most
  1000 entries after every pushed insertion.
\<close>

theorem on_insert_appends_and_evicts:
  "data (on_insert h r st) =
     (if length (data st) + 1 > 1000 then tl (data st) else data st)
       @ [r\<lparr>timestamp_wib := Some (toWIB h (timestamp r))\<rparr>] \<and>
   length (data (on_insert h r st)) =
     (if length (data st) + 1 > 1000 then length (data st) else length (data st) + 1) \<and>
   (length (data st) \<le> 1000 \<longrightarrow> length (data (on_insert h r st)) \<le> 1000) \<and>
   ((\<forall>ev \<in> set evs. within_limit 500 ev) \<longrightarrow>
      length (data (feed_run h (evs @ [Pushed r]) init_state)) \<le> 1000)"
proof -
  have a: "data (on_insert h r st) =
     (if length (data st) + 1 > 1000 then tl (data st) else data st)
       @ [r\<lparr>timestamp_wib := Some (toWIB h (timestamp r))\<rparr>]"
    using on_insert_data [of h r st] by (simp add: with_wib_def)
  have b: "length (data (on_insert h r st)) =
     (if length (data st) + 1 > 1000 then length (data st) else length (data st) + 1)"
    by (simp add: length_on_insert)
  have c: "length (data st) \<le> 1000 \<longrightarrow> length (data (on_insert h r st)) \<le> 1000"
    by (simp add: length_on_insert)
  have d: "(\<forall>ev \<in> set evs. within_limit 500 ev) \<longrightarrow>
      length (data (feed_run h (evs @ [Pushed r]) init_state)) \<le> 1000"
  proof
    assume "\<forall>ev \<in> set evs. within_limit 500 ev"
    then have "\<forall>ev \<in> set (evs @ [Pushed r]). within_limit 500 ev"
      by (simp add: within_limit_def)
    then show "length (data (feed_run h (evs @ [Pushed r]) init_state)) \<le> 1000"
      by (rule feed_run_bounded) (simp add: init_state_def)
  qed
  from a b c d show ?thesis by blast
qed

theorem on_insert_appends_and_evicts_witness:
  "length (data init_state) \<le> 1000 \<and>
   within_limit 500 (Loaded (sample_store fetchInitial_request)) \<and>
   data (on_insert sample_host (sample_row 7) init_state) =
     [(sample_row 7)\<lparr>timestamp_wib := Some (toWIB sample_host (timestamp (sample_row 7)))\<rparr>] \<and>
   length (data (feed_run sample_host
      ([Loaded (sample_store fetchInitial_request)] @ [Pushed (sample_row 7)]) init_state)) \<le> 1000 \<and>
   length (data sample_full) \<le> 1000 \<and>
   length (data (on_insert sample_host (sample_row 7) sample_full)) = 1000 \<and>
   data (on_insert sample_host (sample_row 7) sample_full) =
     tl (data sample_full) @
     [(sample_row 7)\<lparr>timestamp_wib := Some (toWIB sample_host (timestamp (sample_row 7)))\<rparr>]"
proof -
  have h1: "length (data init_state) \<le> 1000" by (simp add: init_state_def)
  have h2: "\<forall>ev \<in> set [Loaded (sample_store fetchInitial_request)]. within_limit 500 ev"
    by (simp add: within_limit_def sample_store_def fetchInitial_request_def)
  have h3: "length (data sample_full) = 1000" by (simp add: sample_full_def)
  have e: "data init_state = []" by (simp add: init_state_def)
  note a = on_insert_appends_and_evicts
    [of sample_host "sample_row 7" init_state "[Loaded (sample_store fetchInitial_request)]"]
  note b = on_insert_appends_and_evicts
    [of sample_host "sample_row 7" sample_full "[]"]
  from a h2 have 1: "length (data (feed_run sample_host
      ([Loaded (sample_store fetchInitial_request)] @ [Pushed (sample_row 7)]) init_state)) \<le> 1000"
    by blast
  from a have 2: "data (on_insert sample_host (sample_row 7) init_state) =
     [(sample_row 7)\<lparr>timestamp_wib := Some (toWIB sample_host (timestamp (sample_row 7)))\<rparr>]"
    by (simp add: e)
  from b have 3: "length (data (on_insert sample_host (sample_row 7) sample_full)) = 1000"
    by (simp add: h3)
  from b have 4: "data (on_insert sample_host (sample_row 7) sample_full) =
     tl (data sample_full) @
     [(sample_row 7)\<lparr>timestamp_wib := Some (toWIB sample_host (timestamp (sample_row 7)))\<rparr>]"
    by (simp add: h3)
  show ?thesis using h1 h2 h3 1 2 3 4 by simp
qed

text \<open>The first version of the page loads in the same way, but asks for 300 rows.\<close>

lemma load_resolve_v1_eq: "load_resolve_v1 h resp st = fetchInitial_resolve h resp st"
  by (simp add: load_resolve_v1_def fetchInitial_resolve_def Let_def split: option.splits)

lemma load_v1_requests_300:
  "limit load_request_v1 = 300 \<and>
   load_v1 h store st = fetchInitial_resolve h (store load_request_v1) (fetchInitial_start st)"
  by (simp add: load_request_v1_def load_v1_def load_resolve_v1_eq fetchInitial_start_def)


section \<open>A pushed insertion that arrives before the bulk load resolves\<close>

lemma fetchInitial_resolve_overwrites:
  "error_r resp = None \<Longrightarrow> data_r resp = Some rows \<Longrightarrow>
   fetchInitial_resolve h resp (st\<lparr>data := buf\<rparr>) = fetchInitial_resolve h resp st"
  by (simp add: fetchInitial_resolve_ok)

text \<open>
  Claim C8. When an insertion is pushed while the bulk load is pending, the handler
  appends it to whatever the buffer holds at that moment; when the bulk load then resolves
  with rows, the buffer is replaced as a whole, and the state is the one that would have
  been reached without the pushed insertion. The pushed reading is in the new buffer only
  if the fetched rows contain it, so nothing guarantees that it survives.
\<close>

theorem push_before_bulk_load_is_overwritten:
  assumes "error_r resp = None" and "data_r resp = Some rows"
  shows "data (on_insert h r (fetchInitial_start st)) =
           (if length (data st) + 1 > 1000 then tl (data st) else data st) @ [with_wib h r] \<and>
         feed_run h [Pushed r, Loaded resp] (fetchInitial_start st) =
           feed_run h [Loaded resp] (fetchInitial_start st) \<and>
         data (feed_run h [Pushed r, Loaded resp] (fetchInitial_start st)) =
           map (with_wib h) (sort_by_timestamp h rows) \<and>
         (with_wib h r \<notin> with_wib h ` set rows \<longrightarrow>
            with_wib h r \<notin> set (data (feed_run h [Pushed r, Loaded resp] (fetchInitial_start st))))"
proof -
  let ?st = "fetchInitial_start st"
  have a: "data (on_insert h r ?st) =
      (if length (data st) + 1 > 1000 then tl (data st) else data st) @ [with_wib h r]"
    using on_insert_data [of h r ?st] by (simp add: fetchInitial_start_def)
  have "fetchInitial_resolve h resp (on_insert h r ?st) = fetchInitial_resolve h resp ?st"
    using fetchInitial_resolve_overwrites [OF assms] on_insert_other [of h r ?st] by metis
  then have b: "feed_run h [Pushed r, Loaded resp] ?st = feed_run h [Loaded resp] ?st"
    by (simp add: feed_run_def)
  have c: "data (feed_run h [Pushed r, Loaded resp] ?st) =
      map (with_wib h) (sort_by_timestamp h rows)"
    using assms by (simp add: b feed_run_def fetchInitial_resolve_ok)
  have d: "with_wib h r \<notin> with_wib h ` set rows \<longrightarrow>
      with_wib h r \<notin> set (data (feed_run h [Pushed r, Loaded resp] ?st))"
    by (simp add: c sort_by_timestamp_def)
  from a b c d show ?thesis by blast
qed

theorem push_before_bulk_load_is_overwritten_witness:
  "error_r sample_pair = None \<and> data_r sample_pair = Some [sample_row 1, sample_row 0] \<and>
   with_wib sample_host (sample_row 7)
     \<notin> with_wib sample_host ` set [sample_row 1, sample_row 0] \<and>
   data (on_insert sample_host (sample_row 7) (fetchInitial_start init_state)) =
     [with_wib sample_host (sample_row 7)] \<and>
   map id_row (data (feed_run sample_host [Pushed (sample_row 7), Loaded sample_pair]
     (fetchInitial_start init_state))) = [0, 1] \<and>
   with_wib sample_host (sample_row 7)
     \<notin> set (data (feed_run sample_host [Pushed (sample_row 7), Loaded sample_pair]
           (fetchInitial_start init_state)))"
proof -
  have h1: "error_r sample_pair = None" by (simp add: sample_pair_def)
  have h2: "data_r sample_pair = Some [sample_row 1, sample_row 0]"
    by (simp add: sample_pair_def)
  have h3: "with_wib sample_host (sample_row 7)
     \<notin> with_wib sample_host ` set [sample_row 1, sample_row 0]"
    by (simp add: with_wib_def sample_row_def)
  note t = push_before_bulk_load_is_overwritten
    [OF h1 h2, of sample_host "sample_row 7" init_state]
  have e: "data init_state = []" by (simp add: init_state_def)
  from t have 1: "data (on_insert sample_host (sample_row 7) (fetchInitial_start init_state)) =
     [with_wib sample_host (sample_row 7)]"
    by (simp add: e)
  from t have "data (feed_run sample_host [Pushed (sample_row 7), Loaded sample_pair]
     (fetchInitial_start init_state)) =
       map (with_wib sample_host) (sort_by_timestamp sample_host [sample_row 1, sample_row 0])"
    by blast
  then have 2: "map id_row (data (feed_run sample_host [Pushed (sample_row 7), Loaded sample_pair]
     (fetchInitial_start init_state))) = [0, 1]"
    by (simp add: sort_by_timestamp_def sample_host_def sample_row_def with_wib_def)
  from t h3 have 3: "with_wib sample_host (sample_row 7)
     \<notin> set (data (feed_run sample_host [Pushed (sample_row 7), Loaded sample_pair]
           (fetchInitial_start init_state)))"
    by blast
  show ?thesis using h1 h2 h3 1 2 3 by blast
qed

section \<open>Missing measurements\<close>

lemma metric_value_with_wib: "metric_value k (with_wib h r) = metric_value k r"
  by (cases k) (simp_all add: metric_value_def with_wib_def)

lemma last_row_conv: "last_row xs = (if xs = [] then None else Some (last xs))"
  by (simp add: last_row_def last_conv_nth)

lemma card_text_on_insert:
  "card_text h k (on_insert h r st) = MetricCard h (metric_value k r)"
  by (simp add: card_text_def latest_def last_row_conv on_insert_data metric_value_with_wib)

lemma card_text_bulk:
  assumes "error_r resp = None" and "data_r resp = Some rows" and "rows \<noteq> []"
  shows "card_text h k (fetchInitial_resolve h resp st) =
           MetricCard h (metric_value k (last (sort_by_timestamp h rows)))"
proof -
  have ne: "sort_by_timestamp h rows \<noteq> []"
    using assms(3) by (metis length_0_conv length_sort sort_by_timestamp_def)
  show ?thesis
    using assms(1,2) ne
    by (simp add: card_text_def latest_def last_row_conv fetchInitial_resolve_ok last_map
        metric_value_with_wib)
qed

text \<open>
  Claim C7. A measurement that is absent in a reading stays absent when the reading is
  buffered, by a pushed insertion as well as by the bulk load (of either version of the
  page): the buffered readings carry the measurements of the rows they come from, nothing
  is put in place of an absent value and no alert is raised. The card of a metric shows
  the text \<^verbatim>\<open>--\<close> when the value it is given is absent, which is the case when the
  latest reading of the buffer lacks that metric.
\<close>

theorem missing_measurement_shown_as_placeholder:
  "map (metric_value k) (data (on_insert h r st)) =
     map (metric_value k)
       ((if length (data st) + 1 > 1000 then tl (data st) else data st) @ [r]) \<and>
   alerts (on_insert h r st) = alerts st \<and>
   (error_r resp = None \<and> data_r resp = Some rows \<longrightarrow>
      map (metric_value k) (data (fetchInitial_resolve h resp st)) =
        map (metric_value k) (sort_by_timestamp h rows) \<and>
      map (metric_value k) (data (load_resolve_v1 h resp st)) =
        map (metric_value k) (sort_by_timestamp h rows) \<and>
      alerts (fetchInitial_resolve h resp st) = alerts st) \<and>
   MetricCard h None = ''--'' \<and>
   (metric_value k r = None \<longrightarrow> card_text h k (on_insert h r st) = ''--'') \<and>
   (error_r resp = None \<and> data_r resp = Some rows \<and> rows \<noteq> [] \<and>
    metric_value k (last (sort_by_timestamp h rows)) = None \<longrightarrow>
      card_text h k (fetchInitial_resolve h resp st) = ''--'')"
proof -
  have a: "map (metric_value k) (data (on_insert h r st)) =
     map (metric_value k)
       ((if length (data st) + 1 > 1000 then tl (data st) else data st) @ [r])"
    by (simp add: on_insert_data metric_value_with_wib)
  have b: "alerts (on_insert h r st) = alerts st"
    by (simp add: on_insert_def Let_def)
  have c: "error_r resp = None \<and> data_r resp = Some rows \<longrightarrow>
      map (metric_value k) (data (fetchInitial_resolve h resp st)) =
        map (metric_value k) (sort_by_timestamp h rows) \<and>
      map (metric_value k) (data (load_resolve_v1 h resp st)) =
        map (metric_value k) (sort_by_timestamp h rows) \<and>
      alerts (fetchInitial_resolve h resp st) = alerts st"
    by (simp add: load_resolve_v1_eq fetchInitial_resolve_ok o_def metric_value_with_wib)
  have d: "MetricCard h None = ''--''" by (simp add: MetricCard_def)
  have e: "metric_value k r = None \<longrightarrow> card_text h k (on_insert h r st) = ''--''"
    by (simp add: card_text_on_insert MetricCard_def)
  have f: "error_r resp = None \<and> data_r resp = Some rows \<and> rows \<noteq> [] \<and>
    metric_value k (last (sort_by_timestamp h rows)) = None \<longrightarrow>
      card_text h k (fetchInitial_resolve h resp st) = ''--''"
    by (simp add: card_text_bulk MetricCard_def)
  from a b c d e f show ?thesis by blast
qed

theorem missing_measurement_shown_as_placeholder_witness:
  "metric_value Kelembapan (sample_row 7) = None \<and>
   error_r sample_pair = None \<and> data_r sample_pair = Some [sample_row 1, sample_row 0] \<and>
   [sample_row 1, sample_row 0] \<noteq> [] \<and>
   metric_value Kelembapan (last (sort_by_timestamp sample_host [sample_row 1, sample_row 0])) = None \<and>
   map (metric_value Kelembapan) (data (on_insert sample_host (sample_row 7) init_state)) = [None] \<and>
   map (metric_value Kelembapan) (data (fetchInitial_resolve sample_host sample_pair init_state)) =
     [None, None] \<and>
   card_text sample_host Kelembapan (on_insert sample_host (sample_row 7) init_state) = ''--'' \<and>
   card_text sample_host Kelembapan (fetchInitial_resolve sample_host sample_pair init_state) = ''--'' \<and>
   card_text sample_host Suhu (on_insert sample_host (sample_row 7) init_state) = ''n.n''"
proof -
  have h1: "metric_value Kelembapan (sample_row 7) = None"
    by (simp add: metric_value_def sample_row_def)
  have h2: "error_r sample_pair = None \<and> data_r sample_pair = Some [sample_row 1, sample_row 0]"
    by (simp add: sample_pair_def)
  have h3: "[sample_row 1, sample_row 0] \<noteq> []" by simp
  have s: "sort_by_timestamp sample_host [sample_row 1, sample_row 0] = [sample_row 0, sample_row 1]"
    by (simp add: sort_by_timestamp_def sample_host_def sample_row_def)
  have h4: "metric_value Kelembapan
      (last (sort_by_timestamp sample_host [sample_row 1, sample_row 0])) = None"
    unfolding s by (simp add: metric_value_def sample_row_def)
  note t = missing_measurement_shown_as_placeholder
    [of Kelembapan sample_host "sample_row 7" init_state sample_pair
        "[sample_row 1, sample_row 0]"]
  have e: "data init_state = []" by (simp add: init_state_def)
  from t have 1: "map (metric_value Kelembapan)
      (data (on_insert sample_host (sample_row 7) init_state)) = [None]"
    by (simp add: e h1)
  from t h2 have "map (metric_value Kelembapan)
      (data (fetchInitial_resolve sample_host sample_pair init_state)) =
      map (metric_value Kelembapan) (sort_by_timestamp sample_host [sample_row 1, sample_row 0])"
    by blast
  then have 2: "map (metric_value Kelembapan)
      (data (fetchInitial_resolve sample_host sample_pair init_state)) = [None, None]"
    unfolding s by (simp add: metric_value_def sample_row_def)
  from t h1 have 3: "card_text sample_host Kelembapan
      (on_insert sample_host (sample_row 7) init_state) = ''--''"
    by blast
  from t h2 h3 h4 have 4: "card_text sample_host Kelembapan
      (fetchInitial_resolve sample_host sample_pair init_state) = ''--''"
    by blast
  have 5: "card_text sample_host Suhu (on_insert sample_host (sample_row 7) init_state) = ''n.n''"
    by (simp add: card_text_on_insert MetricCard_def metric_value_def sample_row_def sample_host_def)
  show ?thesis using h1 h2 h3 h4 1 2 3 4 5 by blast
qed

section \<open>Properties of the setpoint store\<close>

text \<open>
  Claim C5. When the request for the setpoint row fails or yields no row, the load leaves
  the state as it is: the targets of the initial state stay at the defaults 25, 60, 300
  and 50, and no alert is raised. The first version of the page looks at the row only, and
  does the same when there is none.
\<close>

theorem load_failure_keeps_defaults:
  assumes "error_r resp \<noteq> None \<or> data_r resp = None"
  shows "load demo resp st = st \<and>
         setpoint (load demo resp init_state) =
           \<lparr>suhu_sp = 25, kelembapan_sp = 60, cahaya_sp = 300, suara_sp = 50\<rparr> \<and>
         alerts (load demo resp init_state) = [] \<and>
         (data_r resp = None \<longrightarrow>
            loadSetpoint_v1 resp st = st \<and>
            setpoint (loadSetpoint_v1 resp init_state) =
              \<lparr>suhu_sp = 25, kelembapan_sp = 60, cahaya_sp = 300, suara_sp = 50\<rparr>)"
proof -
  have a: "load demo resp st = st" for st
    using assms by (auto simp: load_def)
  have b: "data_r resp = None \<longrightarrow> loadSetpoint_v1 resp st = st" for st
    by (simp add: loadSetpoint_v1_def)
  show ?thesis
    using b by (simp add: a init_state_def default_setpoint_def)
qed

theorem load_failure_keeps_defaults_witness:
  "data_r absent_row = None \<and>
   error_r failed_request \<noteq> None \<and>
   setpoint (load False absent_row init_state) =
     \<lparr>suhu_sp = 25, kelembapan_sp = 60, cahaya_sp = 300, suara_sp = 50\<rparr> \<and>
   setpoint (load False failed_request init_state) =
     \<lparr>suhu_sp = 25, kelembapan_sp = 60, cahaya_sp = 300, suara_sp = 50\<rparr> \<and>
   alerts (load False failed_request init_state) = [] \<and>
   setpoint (loadSetpoint_v1 absent_row init_state) =
     \<lparr>suhu_sp = 25, kelembapan_sp = 60, cahaya_sp = 300, suara_sp = 50\<rparr>"
proof -
  have h1: "error_r absent_row \<noteq> None \<or> data_r absent_row = None"
    by (simp add: absent_row_def)
  have h2: "error_r failed_request \<noteq> None \<or> data_r failed_request = None"
    by (simp add: failed_request_def)
  have h3: "data_r absent_row = None" by (simp add: absent_row_def)
  have h4: "error_r failed_request \<noteq> None" by (simp add: failed_request_def)
  from load_failure_keeps_defaults [OF h1, of False init_state]
    load_failure_keeps_defaults [OF h2, of False init_state] h3 h4
  show ?thesis by blast
qed

text \<open>
  Claim C10. When the request succeeds with a row, each target of the state becomes the
  corresponding target of the row, or the default of that target (25, 60, 300, 50) when
  the row lacks it; the other targets are taken from the row. Both versions of the page
  agree on this.
\<close>

theorem load_substitutes_missing_fields:
  assumes "error_r resp = None" and "data_r resp = Some dat"
  shows "setpoint (load demo resp st) =
           \<lparr>suhu_sp = (case suhu_target dat of None \<Rightarrow> 25 | Some v \<Rightarrow> v),
            kelembapan_sp = (case kelembapan_target dat of None \<Rightarrow> 60 | Some v \<Rightarrow> v),
            cahaya_sp = (case cahaya_target dat of None \<Rightarrow> 300 | Some v \<Rightarrow> v),
            suara_sp = (case suara_target dat of None \<Rightarrow> 50 | Some v \<Rightarrow> v)\<rparr> \<and>
         setpoint (loadSetpoint_v1 resp st) = setpoint (load demo resp st)"
  using assms by (simp add: load_def loadSetpoint_v1_def setpoint_of_row_def Let_def)

theorem load_substitutes_missing_fields_witness:
  "error_r \<lparr>data_r = Some sample_setpoint_row, error_r = None\<rparr> = None \<and>
   data_r \<lparr>data_r = Some sample_setpoint_row, error_r = None\<rparr> = Some sample_setpoint_row \<and>
   setpoint (load DEMO_MODE \<lparr>data_r = Some sample_setpoint_row, error_r = None\<rparr> init_state) =
     \<lparr>suhu_sp = 55 / 2, kelembapan_sp = 60, cahaya_sp = 450, suara_sp = 50\<rparr> \<and>
   setpoint (loadSetpoint_v1 \<lparr>data_r = Some sample_setpoint_row, error_r = None\<rparr> init_state) =
     \<lparr>suhu_sp = 55 / 2, kelembapan_sp = 60, cahaya_sp = 450, suara_sp = 50\<rparr>"
  using load_substitutes_missing_fields
    [of "\<lparr>data_r = Some sample_setpoint_row, error_r = None\<rparr>" sample_setpoint_row DEMO_MODE init_state]
  by (simp add: sample_setpoint_row_def)

text \<open>What saving does, in the second and in the first version of the page, for every answer
  of the store.\<close>

lemma handleSaveSetpoint_outcomes:
  "alerts (handleSaveSetpoint demo upsert now st) =
     (if upsert (save_payload (setpoint st) now) \<noteq> None
      then alerts st @ [''Gagal menyimpan setpoint!''] else alerts st) \<and>
   setpoint (handleSaveSetpoint demo upsert now st) = setpoint st \<and>
   savingSetpoint (handleSaveSetpoint demo upsert now st) = False"
  by (simp add: handleSaveSetpoint_def Let_def)

lemma handleSaveSetpoint_v1_outcomes:
  "alerts (handleSaveSetpoint_v1 upsert now st) = alerts st \<and>
   setpoint (handleSaveSetpoint_v1 upsert now st) = setpoint st \<and>
   savingSetpoint (handleSaveSetpoint_v1 upsert now st) = False"
  by (simp add: handleSaveSetpoint_v1_def Let_def)

text \<open>
  Claim C4. With a store that cannot be reached, saving in the first version of the page
  shows no alert at all, where the claim asks for exactly one; the second version shows
  the one alert. (Both leave the targets as they are and clear the saving flag, see
  \<open>handleSaveSetpoint_outcomes\<close> and \<open>handleSaveSetpoint_v1_outcomes\<close>.)
\<close>

theorem handleSaveSetpoint_v1_failure_unnotified:
  "failing_upsert (save_payload (setpoint init_state) ''2025-01-01T05:00:00.000Z'') \<noteq> None \<and>
   alerts (handleSaveSetpoint_v1 failing_upsert ''2025-01-01T05:00:00.000Z'' init_state) = [] \<and>
   alerts (handleSaveSetpoint DEMO_MODE failing_upsert ''2025-01-01T05:00:00.000Z'' init_state) =
     [''Gagal menyimpan setpoint!'']"
  by (simp add: handleSaveSetpoint_v1_def handleSaveSetpoint_def failing_upsert_def
      init_state_def DEMO_MODE_def Let_def)

end
